theory Spec2Isabelle
  imports Main "HOL-Library.Word"
begin

unbundle bit_operations_syntax

section \<open>Data model\<close>

text \<open>
  The battery history service of \<^verbatim>\<open>src/battery_history.c\<close>: a fixed array
  \<^verbatim>\<open>history[MAX_HISTORY_ENTRIES]\<close> with a fill counter \<^verbatim>\<open>history_count\<close>,
  persisted through the Zephyr settings store, fed by a periodic work item and by the
  battery-state-changed listener, and read through the ZMK Studio custom RPC handler.

  \<^verbatim>\<open>MAX_HISTORY_ENTRIES\<close> comes from Kconfig, which is not part of the sources; it is
  the parameter \<open>N\<close> of every function below.
\<close>

type_synonym u8 = "8 word"
type_synonym u16 = "16 word"
type_synonym u32 = "32 word"

text \<open>\<^verbatim>\<open>struct battery_history_entry\<close> of \<^verbatim>\<open>include/zmk/battery_history.h\<close>.\<close>

record battery_history_entry =
  timestamp :: u32
  battery_percentage :: u8

text \<open>
  The two globals. \<open>history\<close> always has \<open>N\<close> cells (it is an array);
  \<open>history_count\<close> is a C \<^verbatim>\<open>int\<close> and can hold any value, also one that is not
  a valid fill level.
\<close>

record state =
  history :: "battery_history_entry list"
  history_count :: int

definition zero_entry :: battery_history_entry where
  "zero_entry = \<lparr>timestamp = 0, battery_percentage = 0\<rparr>"

text \<open>Static storage at boot: a zeroed array and \<^verbatim>\<open>history_count = 0\<close>.\<close>

definition init_state :: "nat \<Rightarrow> state" where
  "init_state N = \<lparr>history = replicate N zero_entry, history_count = 0\<rparr>"

text \<open>The stored entries, oldest first: the first \<open>history_count\<close> cells.\<close>

definition stored_entries :: "state \<Rightarrow> battery_history_entry list" where
  "stored_entries s = take (nat (history_count s)) (history s)"

text \<open>The array has its \<open>N\<close> cells and the counter is a fill level of it.\<close>

definition valid_state :: "nat \<Rightarrow> state \<Rightarrow> bool" where
  "valid_state N s =
     (length (history s) = N \<and> 0 \<le> history_count s \<and> history_count s \<le> int N)"

section \<open>Appending\<close>

text \<open>
  The loop of \<^verbatim>\<open>add_history_entry\<close>:
  \<^verbatim>\<open>for (int i = 0; i < MAX_HISTORY_ENTRIES - 1; i++) history[i] = history[i + 1];\<close>
\<close>

function shift_entries ::
  "nat \<Rightarrow> nat \<Rightarrow> battery_history_entry list \<Rightarrow> battery_history_entry list" where
  "shift_entries N i h =
     (if i + 1 < N then shift_entries N (i + 1) (h[i := h ! (i + 1)]) else h)"
  by pat_completeness auto
termination
  by (relation "measure (\<lambda>(N, i, h). N - i)") auto

declare shift_entries.simps [simp del]

text \<open>
  \<^verbatim>\<open>add_history_entry\<close>. At capacity the entries move one cell to the left and the
  counter becomes \<open>N - 1\<close>; then the two fields of cell \<open>history_count\<close> are written
  and the counter is incremented. A write outside the array is undefined behaviour in
  C: the model returns \<open>None\<close> there.
\<close>

definition add_history_entry :: "nat \<Rightarrow> u32 \<Rightarrow> u8 \<Rightarrow> state \<Rightarrow> state option" where
  "add_history_entry N ts pct s =
     (let s1 = (if history_count s \<ge> int N
                then s\<lparr>history := shift_entries N 0 (history s), history_count := int N - 1\<rparr>
                else s);
          c = history_count s1
      in if 0 \<le> c \<and> c < int N
         then Some (s1\<lparr>history := (history s1)
                          [nat c := (history s1 ! nat c)
                                      \<lparr>timestamp := ts, battery_percentage := pct\<rparr>],
                        history_count := c + 1\<rparr>)
         else None)"

text \<open>A sequence of appends, in order; it stops at the first undefined one.\<close>

fun add_history_entries :: "nat \<Rightarrow> (u32 \<times> u8) list \<Rightarrow> state \<Rightarrow> state option" where
  "add_history_entries N [] s = Some s"
| "add_history_entries N ((ts, pct) # es) s =
     (case add_history_entry N ts pct s of
        None \<Rightarrow> None
      | Some s' \<Rightarrow> add_history_entries N es s')"

definition entry_of :: "u32 \<times> u8 \<Rightarrow> battery_history_entry" where
  "entry_of p = \<lparr>timestamp = fst p, battery_percentage = snd p\<rparr>"

section \<open>Byte layout of the persisted values\<close>

text \<open>
  The settings store holds raw bytes. The layout is the one of the 32-bit little-endian
  targets the firmware is built for: \<^verbatim>\<open>sizeof(int) = 4\<close>, \<^verbatim>\<open>size_t\<close> is 32 bits
  wide, and \<^verbatim>\<open>sizeof(struct battery_history_entry) = 8\<close> (four bytes of timestamp,
  one byte of percentage, three bytes of padding). Padding bytes are written as zero and
  ignored when read.
\<close>

definition sizeof_int :: nat where
  "sizeof_int = 4"

definition sizeof_entry :: nat where
  "sizeof_entry = 8"

definition le32_bytes :: "u32 \<Rightarrow> u8 list" where
  "le32_bytes w = [ucast w, ucast (drop_bit 8 w), ucast (drop_bit 16 w), ucast (drop_bit 24 w)]"

fun le32_word :: "u8 list \<Rightarrow> u32" where
  "le32_word (b0 # b1 # b2 # b3 # bs) =
     ucast b0 OR push_bit 8 (ucast b1) OR push_bit 16 (ucast b2) OR push_bit 24 (ucast b3)"
| "le32_word _ = 0"

definition entry_bytes :: "battery_history_entry \<Rightarrow> u8 list" where
  "entry_bytes e = le32_bytes (timestamp e) @ [battery_percentage e, 0, 0, 0]"

text \<open>The memory of the array, or of a prefix of it, as bytes.\<close>

definition history_bytes :: "battery_history_entry list \<Rightarrow> u8 list" where
  "history_bytes es = concat (map entry_bytes es)"

text \<open>The array cells that a run of bytes holds (whole cells only).\<close>

fun entries_of_bytes :: "u8 list \<Rightarrow> battery_history_entry list" where
  "entries_of_bytes (b0 # b1 # b2 # b3 # b4 # b5 # b6 # b7 # bs) =
     \<lparr>timestamp = le32_word [b0, b1, b2, b3], battery_percentage = b4\<rparr> # entries_of_bytes bs"
| "entries_of_bytes _ = []"

section \<open>The settings store\<close>

text \<open>
  The Zephyr settings subsystem is outside the repository. It is modelled as a map from
  key names to byte values. \<open>settings_save_one be name val\<close> writes one value; the
  backend \<open>be\<close> gives the return code of a write to each key, \<open>0\<close> for success, and a
  failed write leaves the store as it was.
\<close>

type_synonym settings = "string \<rightharpoonup> u8 list"

definition SETTINGS_KEY :: string where
  "SETTINGS_KEY = ''battery_history''"

definition SETTINGS_KEY_COUNT :: string where
  "SETTINGS_KEY_COUNT = SETTINGS_KEY @ ''/count''"

definition SETTINGS_KEY_ENTRIES :: string where
  "SETTINGS_KEY_ENTRIES = SETTINGS_KEY @ ''/entries''"

definition EINVAL :: int where
  "EINVAL = 22"

definition ENOENT :: int where
  "ENOENT = 2"

definition settings_save_one ::
  "(string \<Rightarrow> int) \<Rightarrow> string \<Rightarrow> u8 list \<Rightarrow> settings \<Rightarrow> int \<times> settings" where
  "settings_save_one be name val st =
     (if be name = 0 then (0, st(name \<mapsto> val)) else (be name, st))"

text \<open>
  \<^verbatim>\<open>save_to_storage\<close>: the count first; the entries only when the count is positive.
  The byte length of the entries value is \<^verbatim>\<open>history_count * sizeof(struct ...)\<close>,
  computed in \<^verbatim>\<open>size_t\<close>; reading it from beyond the array is undefined (\<open>None\<close>).
  For a valid count the product does not wrap and the value is the first
  \<open>history_count\<close> cells.
\<close>

definition save_to_storage ::
  "nat \<Rightarrow> (string \<Rightarrow> int) \<Rightarrow> state \<Rightarrow> settings \<Rightarrow> (int \<times> settings) option" where
  "save_to_storage N be s st =
     (case settings_save_one be SETTINGS_KEY_COUNT
             (le32_bytes (word_of_int (history_count s))) st of
        (rc, st1) \<Rightarrow>
          if rc \<noteq> 0 then Some (rc, st1)
          else if history_count s > 0 then
            (let len = nat ((history_count s * int sizeof_entry) mod 2 ^ 32)
             in if len \<le> N * sizeof_entry then
                  (case settings_save_one be SETTINGS_KEY_ENTRIES
                          (take len (history_bytes (history s))) st1 of
                     (rc2, st2) \<Rightarrow> if rc2 \<noteq> 0 then Some (rc2, st2) else Some (0, st2))
                else None)
          else Some (0, st1))"

text \<open>
  \<^verbatim>\<open>settings_load_handler\<close>, called by the settings subsystem with the key below
  \<^verbatim>\<open>battery_history/\<close> and the stored value \<open>val\<close>; \<^verbatim>\<open>len\<close> is its length and
  \<^verbatim>\<open>read_cb\<close> copies that many bytes to the destination and returns their number.
\<close>

definition settings_load_handler :: "nat \<Rightarrow> string \<Rightarrow> u8 list \<Rightarrow> state \<Rightarrow> int \<times> state" where
  "settings_load_handler N key val s =
     (if key = ''count'' then
        (if length val \<noteq> sizeof_int then (- EINVAL, s)
         else (int sizeof_int, s\<lparr>history_count := sint (le32_word val)\<rparr>))
      else if key = ''entries'' then
        (if length val > N * sizeof_entry then (- EINVAL, s)
         else (int (length val),
               s\<lparr>history := entries_of_bytes
                               (val @ drop (length val) (history_bytes (history s)))\<rparr>))
      else (- ENOENT, s))"

text \<open>
  \<^verbatim>\<open>settings_load_subtree("battery_history")\<close>: the subsystem calls the handler once
  for every stored key of the subtree, in the order \<open>keys\<close> of its backend, and goes on
  after a handler error.
\<close>

fun settings_load_subtree :: "nat \<Rightarrow> string list \<Rightarrow> settings \<Rightarrow> state \<Rightarrow> state" where
  "settings_load_subtree N [] st s = s"
| "settings_load_subtree N (k # ks) st s =
     (case st (SETTINGS_KEY @ ''/'' @ k) of
        None \<Rightarrow> settings_load_subtree N ks st s
      | Some val \<Rightarrow> settings_load_subtree N ks st (snd (settings_load_handler N k val s)))"

text \<open>\<^verbatim>\<open>battery_history_init\<close>: the startup load into the boot state.\<close>

definition battery_history_init :: "nat \<Rightarrow> string list \<Rightarrow> settings \<Rightarrow> state" where
  "battery_history_init N keys st = settings_load_subtree N keys st (init_state N)"

section \<open>Recording policy\<close>

text \<open>\<^verbatim>\<open>get_current_timestamp\<close>: the uptime in milliseconds, in seconds, as \<^verbatim>\<open>uint32_t\<close>.\<close>

definition get_current_timestamp :: "int \<Rightarrow> u32" where
  "get_current_timestamp uptime = word_of_int (uptime div 1000)"

text \<open>
  \<^verbatim>\<open>save_battery_state\<close>, the periodic work handler; \<open>soc\<close> is what
  \<^verbatim>\<open>zmk_battery_state_of_charge()\<close> returns. The result of \<^verbatim>\<open>save_to_storage\<close> is
  dropped. Scheduling the next run of the work item is the timer's business and has no
  part in the model: a run is the trigger \<open>Periodic_tick\<close> below.
\<close>

definition save_battery_state ::
  "nat \<Rightarrow> (string \<Rightarrow> int) \<Rightarrow> u8 \<Rightarrow> int \<Rightarrow> state \<Rightarrow> settings \<Rightarrow> (state \<times> settings) option" where
  "save_battery_state N be soc uptime s st =
     (case add_history_entry N (get_current_timestamp uptime) soc s of
        None \<Rightarrow> None
      | Some s1 \<Rightarrow>
          (case save_to_storage N be s1 st of
             None \<Rightarrow> None
           | Some (rc, st1) \<Rightarrow> Some (s1, st1)))"

text \<open>
  \<^verbatim>\<open>battery_state_changed_listener\<close>; \<open>ev\<close> is \<open>None\<close> when the event is not a
  battery state change. Reading \<^verbatim>\<open>history[history_count - 1]\<close> outside the array is
  undefined.
\<close>

definition battery_state_changed_listener ::
  "nat \<Rightarrow> (string \<Rightarrow> int) \<Rightarrow> u8 option \<Rightarrow> int \<Rightarrow> state \<Rightarrow> settings
     \<Rightarrow> (int \<times> state \<times> settings) option" where
  "battery_state_changed_listener N be ev uptime s st =
     (case ev of
        None \<Rightarrow> Some (0, s, st)
      | Some state_of_charge \<Rightarrow>
          if history_count s = 0 then
            (case add_history_entry N (get_current_timestamp uptime) state_of_charge s of
               None \<Rightarrow> None
             | Some s1 \<Rightarrow>
                 (case save_to_storage N be s1 st of
                    None \<Rightarrow> None
                  | Some (rc, st1) \<Rightarrow> Some (0, s1, st1)))
          else if 0 \<le> history_count s - 1 \<and> history_count s - 1 < int N then
            (let d = uint state_of_charge
                       - uint (battery_percentage (history s ! nat (history_count s - 1)));
                 diff = (if d < 0 then - d else d)
             in if diff \<ge> 5 then
                  (case add_history_entry N (get_current_timestamp uptime) state_of_charge s of
                     None \<Rightarrow> None
                   | Some s1 \<Rightarrow>
                       (case save_to_storage N be s1 st of
                          None \<Rightarrow> None
                        | Some (rc, st1) \<Rightarrow> Some (0, s1, st1)))
                else Some (0, s, st))
          else None)"

section \<open>Public API\<close>

definition battery_history_get_count :: "state \<Rightarrow> int" where
  "battery_history_get_count s = history_count s"

text \<open>
  \<^verbatim>\<open>battery_history_get_entries\<close>. \<open>entries\<close> is the caller's array (\<open>None\<close> for a
  null pointer). \<^verbatim>\<open>memcpy\<close> copies \<^verbatim>\<open>count * sizeof(struct ...)\<close> bytes, a
  \<^verbatim>\<open>size_t\<close>; reading beyond \<open>history\<close> or writing beyond the caller's array is
  undefined. The function returns the state it was given: it assigns to no global.
\<close>

definition battery_history_get_entries ::
  "nat \<Rightarrow> state \<Rightarrow> battery_history_entry list option \<Rightarrow> int
     \<Rightarrow> (int \<times> battery_history_entry list option \<times> state) option" where
  "battery_history_get_entries N s entries max_entries =
     (case entries of
        None \<Rightarrow> Some (- EINVAL, entries, s)
      | Some dst \<Rightarrow>
          if max_entries \<le> 0 then Some (- EINVAL, entries, s)
          else
            (let count = (if history_count s < max_entries then history_count s else max_entries);
                 len = nat ((count * int sizeof_entry) mod 2 ^ 32);
                 k = len div sizeof_entry
             in if len \<le> N * sizeof_entry \<and> len \<le> length dst * sizeof_entry
                then Some (count, Some (take k (history s) @ drop k dst), s)
                else None))"

text \<open>\<^verbatim>\<open>battery_history_clear\<close>.\<close>

definition battery_history_clear ::
  "nat \<Rightarrow> (string \<Rightarrow> int) \<Rightarrow> state \<Rightarrow> settings \<Rightarrow> (int \<times> state \<times> settings) option" where
  "battery_history_clear N be s st =
     (let s1 = s\<lparr>history_count := 0\<rparr>
      in case save_to_storage N be s1 st of
           None \<Rightarrow> None
         | Some (rc, st1) \<Rightarrow> Some (rc, s1, st1))"

definition battery_history_get_current_battery :: "u8 \<Rightarrow> u8" where
  "battery_history_get_current_battery soc = soc"

section \<open>Studio RPC handler\<close>

text \<open>
  The request and response messages are generated from a protobuf file that is not part
  of the sources. A decoded request is its \<^verbatim>\<open>which_request_type\<close> tag (both request
  messages are empty); the tag is one of the two the handler switches on, or another
  number. \<open>pb_decode\<close> (nanopb) is a parameter: \<open>None\<close> when decoding fails.
\<close>

datatype which_request_type =
  Request_get_battery_history_tag
  | Request_clear_battery_history_tag
  | Request_other_tag nat

datatype response =
  Response_unset
  | Response_error string
  | Response_battery_history u8 int "battery_history_entry list"
  | Response_clear_battery_history bool

text \<open>
  \<^verbatim>\<open>handle_get_battery_history_request\<close>: current level, count, and the entries
  copied through a local array of \<open>N\<close> cells.
\<close>

definition handle_get_battery_history_request ::
  "nat \<Rightarrow> u8 \<Rightarrow> state \<Rightarrow> response \<Rightarrow> (int \<times> response \<times> state) option" where
  "handle_get_battery_history_request N soc s resp =
     (let current_battery = battery_history_get_current_battery soc;
          count = battery_history_get_count s
      in case battery_history_get_entries N s (Some (replicate N zero_entry)) (int N) of
           None \<Rightarrow> None
         | Some (retrieved, entries, s1) \<Rightarrow>
             if retrieved < 0 then Some (retrieved, resp, s1)
             else Some (0, Response_battery_history current_battery count
                             (take (nat retrieved) (case entries of None \<Rightarrow> [] | Some es \<Rightarrow> es)),
                        s1))"

text \<open>\<^verbatim>\<open>handle_clear_battery_history_request\<close>.\<close>

definition handle_clear_battery_history_request ::
  "nat \<Rightarrow> (string \<Rightarrow> int) \<Rightarrow> state \<Rightarrow> settings
     \<Rightarrow> (int \<times> response \<times> state \<times> settings) option" where
  "handle_clear_battery_history_request N be s st =
     (case battery_history_clear N be s st of
        None \<Rightarrow> None
      | Some (rc, s1, st1) \<Rightarrow> Some (0, Response_clear_battery_history (rc = 0), s1, st1))"

text \<open>
  \<^verbatim>\<open>battery_history_rpc_handle_request\<close>. The result is the returned flag, the
  response buffer, and the state and store afterwards.
\<close>

definition battery_history_rpc_handle_request ::
  "nat \<Rightarrow> (string \<Rightarrow> int) \<Rightarrow> (u8 list \<Rightarrow> which_request_type option) \<Rightarrow> u8 \<Rightarrow> u8 list
     \<Rightarrow> state \<Rightarrow> settings \<Rightarrow> (bool \<times> response \<times> state \<times> settings) option" where
  "battery_history_rpc_handle_request N be pb_decode soc payload s st =
     (let resp = Response_unset
      in case pb_decode payload of
           None \<Rightarrow> Some (True, Response_error ''Failed to decode request'', s, st)
         | Some req \<Rightarrow>
             (case (case req of
                      Request_get_battery_history_tag \<Rightarrow>
                        (case handle_get_battery_history_request N soc s resp of
                           None \<Rightarrow> None
                         | Some (rc, resp1, s1) \<Rightarrow> Some (rc, resp1, s1, st))
                    | Request_clear_battery_history_tag \<Rightarrow>
                        handle_clear_battery_history_request N be s st
                    | Request_other_tag t \<Rightarrow> Some (- 1, resp, s, st)) of
                None \<Rightarrow> None
              | Some (rc, resp1, s1, st1) \<Rightarrow>
                  if rc \<noteq> 0
                  then Some (True, Response_error ''Failed to process request'', s1, st1)
                  else Some (True, resp1, s1, st1)))"

section \<open>Split relay\<close>

text \<open>
  Modelled from the spec: the event \<^verbatim>\<open>zmk_battery_history_entry_event\<close> and the
  transport message of type \<^verbatim>\<open>BATTERY_HISTORY_ENTRY\<close> are declared in headers that
  are missing; the fields are the ones the listener copies, with the widths of the
  spec's \<^verbatim>\<open>RelayChunk\<close>.
\<close>

record relay_chunk =
  chunk_timestamp :: u32
  battery_level :: u8
  entry_index :: u16
  total_entries :: u16
  is_last :: bool

definition ZMK_EV_EVENT_BUBBLE :: int where
  "ZMK_EV_EVENT_BUBBLE = 0"

definition ZMK_EV_EVENT_HANDLED :: int where
  "ZMK_EV_EVENT_HANDLED = 1"

text \<open>
  \<^verbatim>\<open>battery_history_peripheral_listener\<close>. \<open>ev\<close> is \<open>None\<close> when the event is of
  another type. \<open>report\<close> stands for \<^verbatim>\<open>zmk_split_peripheral_report_event\<close>: its
  return code for a message; a message it accepts (code \<open>\<ge> 0\<close>) is added to the
  messages \<open>link\<close> sent to the central, a refused one is logged and dropped.
\<close>

definition battery_history_peripheral_listener ::
  "(relay_chunk \<Rightarrow> int) \<Rightarrow> relay_chunk option \<Rightarrow> relay_chunk list \<Rightarrow> int \<times> relay_chunk list" where
  "battery_history_peripheral_listener report ev link =
     (case ev of
        None \<Rightarrow> (ZMK_EV_EVENT_BUBBLE, link)
      | Some e \<Rightarrow>
          (let peripheral_ev = \<lparr>chunk_timestamp = chunk_timestamp e,
                                 battery_level = battery_level e,
                                 entry_index = entry_index e,
                                 total_entries = total_entries e,
                                 is_last = is_last e\<rparr>;
               rc = report peripheral_ev
           in (ZMK_EV_EVENT_HANDLED, if rc < 0 then link else link @ [peripheral_ev])))"

text \<open>
  The device as a whole: the buffer, the settings store and the messages sent over the
  link so far. A trigger is dispatched to the handler that the source registers for it:
  the delayable work \<^verbatim>\<open>save_work\<close>, the subscription to
  \<^verbatim>\<open>zmk_battery_state_changed\<close>, and the subscription to
  \<^verbatim>\<open>zmk_battery_history_entry_event\<close>. The key press of the request behavior is
  not among the triggers: on the peripheral it calls
  \<^verbatim>\<open>zmk_battery_history_trigger_send\<close>, which is not part of the sources.
\<close>

record device =
  buffer :: state
  store :: settings
  link :: "relay_chunk list"

datatype trigger =
  Periodic_tick u8 int
  | Level_changed u8 int
  | History_entry_event relay_chunk

definition dispatch ::
  "nat \<Rightarrow> (string \<Rightarrow> int) \<Rightarrow> (relay_chunk \<Rightarrow> int) \<Rightarrow> trigger \<Rightarrow> device \<Rightarrow> device option" where
  "dispatch N be report t d =
     (case t of
        Periodic_tick soc uptime \<Rightarrow>
          (case save_battery_state N be soc uptime (buffer d) (store d) of
             None \<Rightarrow> None
           | Some (s1, st1) \<Rightarrow> Some (d\<lparr>buffer := s1, store := st1\<rparr>))
      | Level_changed soc uptime \<Rightarrow>
          (case battery_state_changed_listener N be (Some soc) uptime (buffer d) (store d) of
             None \<Rightarrow> None
           | Some (rc, s1, st1) \<Rightarrow> Some (d\<lparr>buffer := s1, store := st1\<rparr>))
      | History_entry_event e \<Rightarrow>
          Some (d\<lparr>link := snd (battery_history_peripheral_listener report (Some e) (link d))\<rparr>))"

fun dispatch_all ::
  "nat \<Rightarrow> (string \<Rightarrow> int) \<Rightarrow> (relay_chunk \<Rightarrow> int) \<Rightarrow> trigger list \<Rightarrow> device \<Rightarrow> device option" where
  "dispatch_all N be report [] d = Some d"
| "dispatch_all N be report (t # ts) d =
     (case dispatch N be report t d of
        None \<Rightarrow> None
      | Some d1 \<Rightarrow> dispatch_all N be report ts d1)"

text \<open>
  The stream of the spec's relay protocol for a buffer content, in the spec's words: one
  chunk per entry, oldest first, \<open>index\<close> from 0, \<open>total\<close> the number of entries,
  \<open>is_last\<close> on the chunk with \<open>index = total - 1\<close>.
\<close>

definition spec_relay_stream :: "battery_history_entry list \<Rightarrow> relay_chunk list" where
  "spec_relay_stream es =
     map (\<lambda>i. \<lparr>chunk_timestamp = timestamp (es ! i),
                battery_level = battery_percentage (es ! i),
                entry_index = of_nat i,
                total_entries = of_nat (length es),
                is_last = (i + 1 = length es)\<rparr>) [0..<length es]"

text \<open>The last \<open>N\<close> elements of a sequence (all of it when it is shorter).\<close>

definition keep_last :: "nat \<Rightarrow> 'a list \<Rightarrow> 'a list" where
  "keep_last N xs = drop (length xs - N) xs"

text \<open>A backend on which every write succeeds, and a link that accepts every message.\<close>

definition backend_ok :: "string \<Rightarrow> int" where
  "backend_ok name = 0"

definition report_ok :: "relay_chunk \<Rightarrow> int" where
  "report_ok c = 0"

text \<open>A backend that refuses every write with \<open>-EIO\<close>.\<close>

definition backend_fails :: "string \<Rightarrow> int" where
  "backend_fails name = - 5"

text \<open>
  A request decoder that rejects every payload, and one that decodes every payload to a
  request of a type the handler does not know.
\<close>

definition pb_decode_fails :: "u8 list \<Rightarrow> which_request_type option" where
  "pb_decode_fails payload = None"

definition pb_decode_unknown :: "u8 list \<Rightarrow> which_request_type option" where
  "pb_decode_unknown payload = Some (Request_other_tag 7)"

section \<open>Properties of appending\<close>

lemma shift_entries_eq:
  "i < N \<Longrightarrow> length h = N \<Longrightarrow> shift_entries N i h = take i h @ drop (i + 1) h @ [last h]"
proof (induction N i h rule: shift_entries.induct)
  case (1 N i h)
  show ?case
  proof (cases "i + 1 < N")
    case True
    let ?h = "h[i := h ! (i + 1)]"
    have len: "length ?h = N" using 1 by simp
    have ih: "shift_entries N (i + 1) ?h = take (i + 1) ?h @ drop (i + 1 + 1) ?h @ [last ?h]"
      using "1.IH" [OF True True len] .
    have t: "take (i + 1) ?h = take i h @ [h ! (i + 1)]"
      using 1 True by (simp add: take_Suc_conv_app_nth)
    have d: "drop (i + 1 + 1) ?h = drop (i + 2) h"
      by simp
    have l: "last ?h = last h"
    proof -
      have "h \<noteq> []" using 1 by auto
      then show ?thesis using 1 True by (simp add: last_conv_nth)
    qed
    have c: "drop (i + 1) h = h ! (i + 1) # drop (i + 2) h"
      using 1 True by (simp add: Cons_nth_drop_Suc)
    have "shift_entries N i h = shift_entries N (i + 1) ?h"
      using True by (subst shift_entries.simps) simp
    then show ?thesis
      by (simp only: ih t d l c append_assoc append_Cons append_Nil)
  next
    case False
    with 1 have i: "i = N - 1" by simp
    have "h \<noteq> []" using 1 by auto
    then have "take (N - 1) h @ [last h] = h"
      using 1 append_butlast_last_id [of h] by (simp add: butlast_conv_take)
    moreover have "shift_entries N i h = h"
      using False by (subst shift_entries.simps) simp
    ultimately show ?thesis using 1 i by simp
  qed
qed

lemma keep_last_append: "keep_last N (keep_last N xs @ ys) = keep_last N (xs @ ys)"
proof (cases "length xs \<le> N")
  case True
  then show ?thesis by (simp add: keep_last_def)
next
  case False
  then have "length xs - N + N = length xs" by simp
  then show ?thesis using False by (simp add: keep_last_def add.commute)
qed

lemma keep_last_short: "length xs \<le> N \<Longrightarrow> keep_last N xs = xs"
  by (simp add: keep_last_def)

lemma stored_entries_full:
  "valid_state N s \<Longrightarrow> history_count s = int N \<Longrightarrow> stored_entries s = history s"
  by (simp add: valid_state_def stored_entries_def)

lemma length_stored_entries:
  "valid_state N s \<Longrightarrow> int (length (stored_entries s)) = history_count s"
  by (auto simp: valid_state_def stored_entries_def min_def)

lemma valid_init_state: "valid_state N (init_state N)"
  by (simp add: valid_state_def init_state_def)

lemma replicate_two: "replicate 2 x = [x, x]"
  by (simp add: numeral_2_eq_2)

lemma stored_entries_init_state: "stored_entries (init_state N) = []"
  by (simp add: stored_entries_def init_state_def)

lemma add_history_entry_full:
  assumes "valid_state N s" "0 < N" "history_count s = int N"
  shows "add_history_entry N ts pct s =
     Some \<lparr>history = tl (history s)
                       @ [last (history s)\<lparr>timestamp := ts, battery_percentage := pct\<rparr>],
           history_count = int N\<rparr>"
proof -
  have len: "length (history s) = N" using assms by (simp add: valid_state_def)
  have sh: "shift_entries N 0 (history s) = tl (history s) @ [last (history s)]"
    using shift_entries_eq [of 0 N "history s"] assms len by (simp add: drop_Suc)
  have k: "nat (int N - 1) = length (tl (history s))" using len assms by simp
  have upd: "(tl (history s) @ [last (history s)])[nat (int N - 1) := e] = tl (history s) @ [e]"
    for e by (simp only: k list_update_length)
  have nth: "(tl (history s) @ [last (history s)]) ! nat (int N - 1) = last (history s)"
    by (simp only: k nth_append_length)
  show ?thesis
    using assms by (simp add: add_history_entry_def Let_def sh upd nth)
qed

lemma add_history_entry_room:
  assumes "valid_state N s" "history_count s < int N"
  shows "add_history_entry N ts pct s =
     Some \<lparr>history = (history s)[nat (history_count s) :=
                 (history s ! nat (history_count s))\<lparr>timestamp := ts, battery_percentage := pct\<rparr>],
           history_count = history_count s + 1\<rparr>"
  using assms by (simp add: add_history_entry_def Let_def valid_state_def)

lemma add_history_entry_valid:
  assumes "valid_state N s" "0 < N"
  shows "\<exists>s'. add_history_entry N ts pct s = Some s' \<and> valid_state N s' \<and>
     stored_entries s' =
       keep_last N (stored_entries s @ [\<lparr>timestamp = ts, battery_percentage = pct\<rparr>])"
proof (cases "history_count s = int N")
  case True
  have len: "length (history s) = N" using assms by (simp add: valid_state_def)
  show ?thesis using assms True len
    by (simp add: add_history_entry_full stored_entries_full valid_state_def
        stored_entries_def keep_last_def drop_Suc)
next
  case False
  then have lt: "history_count s < int N" using assms by (simp add: valid_state_def)
  have len: "length (history s) = N" and ge: "0 \<le> history_count s"
    using assms by (simp_all add: valid_state_def)
  have n: "nat (history_count s) < N" using lt ge by simp
  have "take (nat (history_count s + 1)) ((history s)[nat (history_count s) := e])
          = take (nat (history_count s)) (history s) @ [e]" for e
    using n len ge by (simp add: nat_add_distrib take_Suc_conv_app_nth)
  then show ?thesis using assms lt n len ge
    by (simp add: add_history_entry_room valid_state_def stored_entries_def keep_last_def)
qed

lemma add_history_entries_valid:
  assumes "valid_state N s" "0 < N"
  shows "\<exists>s'. add_history_entries N es s = Some s' \<and> valid_state N s' \<and>
     stored_entries s' = keep_last N (stored_entries s @ map entry_of es)"
  using assms(1)
proof (induction es arbitrary: s)
  case Nil
  then have "length (stored_entries s) \<le> N"
    by (simp add: valid_state_def stored_entries_def)
  then show ?case using Nil by (simp add: keep_last_short)
next
  case (Cons e es)
  obtain ts pct where e: "e = (ts, pct)" by (cases e)
  obtain s1 where s1: "add_history_entry N ts pct s = Some s1" "valid_state N s1"
    "stored_entries s1 = keep_last N (stored_entries s @ [entry_of e])"
    using add_history_entry_valid [OF Cons.prems assms(2), of ts pct] e
    by (auto simp: entry_of_def)
  obtain s' where s': "add_history_entries N es s1 = Some s'" "valid_state N s'"
    "stored_entries s' = keep_last N (stored_entries s1 @ map entry_of es)"
    using Cons.IH [OF s1(2)] by blast
  have "stored_entries s' = keep_last N (stored_entries s @ map entry_of (e # es))"
    using s'(3) s1(3) keep_last_append [of N "stored_entries s @ [entry_of e]" "map entry_of es"]
    by simp
  then show ?case using s1(1) s'(1,2) e by simp
qed

text \<open>
  C2. Starting from the empty buffer of capacity \<open>N > 0\<close>, any sequence of appends
  succeeds; afterwards the buffer holds \<open>min N (length es)\<close> entries, namely the last
  \<open>N\<close> appended ones, oldest first (so exactly \<open>N\<close> from the \<open>N\<close>-th append on). One
  more append succeeds as well: it drops the entry at index 0 when the buffer is full
  and puts the new entry last.
\<close>

theorem add_history_entry_fifo:
  assumes "0 < N"
  shows "\<exists>s s'. add_history_entries N es (init_state N) = Some s
           \<and> history_count s = int (min N (length es))
           \<and> stored_entries s = drop (length es - N) (map entry_of es)
           \<and> add_history_entry N ts pct s = Some s'
           \<and> stored_entries s' =
               (if history_count s = int N then tl (stored_entries s) else stored_entries s)
                 @ [\<lparr>timestamp = ts, battery_percentage = pct\<rparr>]
           \<and> history_count s' = int (min N (length es + 1))"
proof -
  obtain s where s: "add_history_entries N es (init_state N) = Some s" "valid_state N s"
    "stored_entries s = keep_last N (map entry_of es)"
    using add_history_entries_valid [OF valid_init_state assms, of es]
    by (auto simp: stored_entries_init_state)
  obtain s' where s': "add_history_entry N ts pct s = Some s'" "valid_state N s'"
    "stored_entries s' =
       keep_last N (stored_entries s @ [\<lparr>timestamp = ts, battery_percentage = pct\<rparr>])"
    using add_history_entry_valid [OF s(2) assms] by blast
  have c: "history_count s = int (min N (length es))"
    using length_stored_entries [OF s(2)] s(3) by (simp add: keep_last_def)
  have l: "length (stored_entries s) = min N (length es)"
    using s(3) by (simp add: keep_last_def)
  have step: "stored_entries s' =
      (if history_count s = int N then tl (stored_entries s) else stored_entries s)
        @ [\<lparr>timestamp = ts, battery_percentage = pct\<rparr>]"
  proof (cases "history_count s = int N")
    case True
    then have "length (stored_entries s) = N" using c l by simp
    then show ?thesis using True s'(3) assms
      by (cases "stored_entries s") (simp_all add: keep_last_def)
  next
    case False
    then have "length (stored_entries s) < N" using c l by auto
    then show ?thesis using False s'(3) by (simp add: keep_last_def)
  qed
  have c': "history_count s' = int (min N (length es + 1))"
    using length_stored_entries [OF s'(2)] s'(3) l by (simp add: keep_last_def)
  show ?thesis
    using s(1) s(3) c s'(1) step c' by (simp add: keep_last_def)
qed

theorem add_history_entry_fifo_witness:
  "(0::nat) < 2 \<and>
   (\<exists>s s'. add_history_entries 2 [(1, 80), (2, 75), (3, 70)] (init_state 2) = Some s
      \<and> history_count s = 2
      \<and> stored_entries s = [\<lparr>timestamp = 2, battery_percentage = 75\<rparr>,
                             \<lparr>timestamp = 3, battery_percentage = 70\<rparr>]
      \<and> add_history_entry 2 4 65 s = Some s'
      \<and> stored_entries s' = [\<lparr>timestamp = 3, battery_percentage = 70\<rparr>,
                              \<lparr>timestamp = 4, battery_percentage = 65\<rparr>]
      \<and> history_count s' = 2)"
proof -
  have h: "(0::nat) < 2" by simp
  from add_history_entry_fifo [OF h, of "[(1, 80), (2, 75), (3, 70)]" 4 65]
  obtain s s' where "add_history_entries 2 [(1, 80), (2, 75), (3, 70)] (init_state 2) = Some s"
    "history_count s = int (min 2 (length [(1::u32, 80::u8), (2, 75), (3, 70)]))"
    "stored_entries s = drop (length [(1::u32, 80::u8), (2, 75), (3, 70)] - 2)
                          (map entry_of [(1, 80), (2, 75), (3, 70)])"
    "add_history_entry 2 4 65 s = Some s'"
    "stored_entries s' =
       (if history_count s = int 2 then tl (stored_entries s) else stored_entries s)
         @ [\<lparr>timestamp = 4, battery_percentage = 65\<rparr>]"
    "history_count s' = int (min 2 (length [(1::u32, 80::u8), (2, 75), (3, 70)] + 1))"
    by blast
  then show ?thesis
    by (intro conjI exI [of _ s] exI [of _ s']) (simp_all add: entry_of_def)
qed

section \<open>Properties of the byte layout and of saving\<close>

lemma le32_word_bytes: "le32_word (le32_bytes w) = w"
  unfolding le32_bytes_def
  apply simp
  apply (rule bit_word_eqI)
  subgoal for n
    apply (cases "n < 8"; cases "n < 16"; cases "n < 24")
    apply (auto simp: bit_simps)
    done
  done

lemma length_le32_bytes: "length (le32_bytes w) = 4"
  by (simp add: le32_bytes_def)

lemma length_entry_bytes: "length (entry_bytes e) = 8"
  by (simp add: entry_bytes_def length_le32_bytes)

lemma length_history_bytes: "length (history_bytes es) = length es * 8"
  by (induction es) (simp_all add: history_bytes_def length_entry_bytes)

lemma history_bytes_Cons: "history_bytes (e # es) = entry_bytes e @ history_bytes es"
  by (simp add: history_bytes_def)

lemma history_bytes_append: "history_bytes (es @ fs) = history_bytes es @ history_bytes fs"
  by (simp add: history_bytes_def)

lemma take_history_bytes: "take (k * 8) (history_bytes h) = history_bytes (take k h)"
proof (induction h arbitrary: k)
  case Nil
  then show ?case by (simp add: history_bytes_def)
next
  case (Cons e h)
  show ?case
  proof (cases k)
    case 0
    then show ?thesis by (simp add: history_bytes_def)
  next
    case (Suc j)
    then show ?thesis
      using Cons.IH [of j] by (simp add: history_bytes_Cons length_entry_bytes)
  qed
qed

lemma drop_history_bytes: "drop (k * 8) (history_bytes h) = history_bytes (drop k h)"
proof (induction h arbitrary: k)
  case Nil
  then show ?case by (simp add: history_bytes_def)
next
  case (Cons e h)
  show ?case
  proof (cases k)
    case 0
    then show ?thesis by (simp add: history_bytes_def)
  next
    case (Suc j)
    then show ?thesis
      using Cons.IH [of j] by (simp add: history_bytes_Cons length_entry_bytes)
  qed
qed

lemma entries_of_entry_bytes:
  "entries_of_bytes (entry_bytes e @ bs) = e # entries_of_bytes bs"
proof -
  have "le32_word (le32_bytes (timestamp e)) = timestamp e" by (rule le32_word_bytes)
  then show ?thesis
    by (simp add: entry_bytes_def le32_bytes_def)
qed

lemma entries_of_history_bytes: "entries_of_bytes (history_bytes es) = es"
  by (induction es) (simp_all add: history_bytes_Cons entries_of_entry_bytes history_bytes_def)

lemma key_simps:
  "SETTINGS_KEY_COUNT \<noteq> SETTINGS_KEY_ENTRIES"
  "SETTINGS_KEY @ ''/'' @ k = SETTINGS_KEY_COUNT \<longleftrightarrow> k = ''count''"
  "SETTINGS_KEY @ ''/'' @ k = SETTINGS_KEY_ENTRIES \<longleftrightarrow> k = ''entries''"
  by (simp_all add: SETTINGS_KEY_COUNT_def SETTINGS_KEY_ENTRIES_def SETTINGS_KEY_def)

lemma save_to_storage_valid:
  assumes "valid_state N s" "N * sizeof_entry < 2 ^ 32"
  shows "save_to_storage N be s st =
     Some (if be SETTINGS_KEY_COUNT \<noteq> 0 then (be SETTINGS_KEY_COUNT, st)
           else if history_count s > 0 then
             (if be SETTINGS_KEY_ENTRIES \<noteq> 0
              then (be SETTINGS_KEY_ENTRIES,
                    st(SETTINGS_KEY_COUNT \<mapsto> le32_bytes (word_of_int (history_count s))))
              else (0, st(SETTINGS_KEY_COUNT \<mapsto> le32_bytes (word_of_int (history_count s)),
                          SETTINGS_KEY_ENTRIES \<mapsto> history_bytes (stored_entries s))))
           else (0, st(SETTINGS_KEY_COUNT \<mapsto> le32_bytes (word_of_int (history_count s)))))"
proof -
  have c: "0 \<le> history_count s" "history_count s \<le> int N"
    using assms by (simp_all add: valid_state_def)
  have "history_count s * 8 \<le> int N * 8" using c by simp
  also have "\<dots> < 2 ^ 32" using assms(2) by (simp add: sizeof_entry_def)
  finally have lt: "history_count s * 8 < 2 ^ 32" .
  then have m: "(history_count s * 8) mod 2 ^ 32 = history_count s * 8"
    using c by simp
  have n: "nat (history_count s * 8) = nat (history_count s) * 8"
    using c by (simp add: nat_mult_distrib)
  have le: "nat (history_count s) * 8 \<le> N * 8" using c by simp
  have L: "nat ((history_count s * int sizeof_entry) mod 2 ^ 32) = nat (history_count s) * 8"
    using m n by (simp add: sizeof_entry_def)
  show ?thesis
    unfolding save_to_storage_def L Let_def
    using le
    by (simp add: settings_save_one_def sizeof_entry_def take_history_bytes stored_entries_def)
qed

section \<open>Properties of the startup load\<close>

lemma sint_count:
  assumes "0 \<le> c" "c < 2 ^ 31"
  shows "sint (le32_word (le32_bytes (word_of_int c))) = c"
proof -
  have "sint (word_of_int c :: 32 word) = c"
    using assms by (simp add: signed_of_int signed_take_bit_int_eq_self)
  then show ?thesis by (simp add: le32_word_bytes)
qed

lemma length_entries_of_bytes: "length (entries_of_bytes bs) = length bs div 8"
  by (induction bs rule: entries_of_bytes.induct) simp_all

lemma load_handler_length:
  "length (history s) = N \<Longrightarrow> length (history (snd (settings_load_handler N k v s))) = N"
  by (simp add: settings_load_handler_def length_entries_of_bytes length_history_bytes sizeof_entry_def)

lemma load_handler_other_count:
  "k \<noteq> ''count'' \<Longrightarrow> history_count (snd (settings_load_handler N k v s)) = history_count s"
  by (simp add: settings_load_handler_def)

lemma load_handler_other_history:
  "k \<noteq> ''entries'' \<Longrightarrow> history (snd (settings_load_handler N k v s)) = history s"
  by (simp add: settings_load_handler_def)

lemma load_subtree_length:
  "length (history s) = N \<Longrightarrow> length (history (settings_load_subtree N ks st s)) = N"
  by (induction ks arbitrary: s) (auto simp: load_handler_length split: option.splits)

lemma load_subtree_count_absent:
  "''count'' \<notin> set ks \<Longrightarrow> history_count (settings_load_subtree N ks st s) = history_count s"
  by (induction ks arbitrary: s) (auto simp: load_handler_other_count split: option.splits)

lemma load_subtree_history_absent:
  "''entries'' \<notin> set ks \<Longrightarrow> history (settings_load_subtree N ks st s) = history s"
  by (induction ks arbitrary: s) (auto simp: load_handler_other_history split: option.splits)

lemma load_subtree_count:
  assumes "''count'' \<in> set ks" "st SETTINGS_KEY_COUNT = Some v" "length v = sizeof_int"
  shows "history_count (settings_load_subtree N ks st s) = sint (le32_word v)"
  using assms(1)
proof (induction ks arbitrary: s)
  case Nil
  then show ?case by simp
next
  case (Cons k ks)
  show ?case
  proof (cases "''count'' \<in> set ks")
    case True
    then show ?thesis using Cons.IH by (simp split: option.splits)
  next
    case False
    then have k: "k = ''count''" using Cons.prems by simp
    have "st (SETTINGS_KEY @ ''/'' @ k) = Some v" using assms(2) k by (simp add: key_simps [symmetric])
    then show ?thesis
      using False k assms(3) by (simp add: load_subtree_count_absent settings_load_handler_def)
  qed
qed

lemma load_subtree_history:
  assumes "''entries'' \<in> set ks" "st SETTINGS_KEY_ENTRIES = Some (history_bytes es)"
    "length es \<le> N" "length (history s) = N"
  shows "take (length es) (history (settings_load_subtree N ks st s)) = es"
  using assms(1,4)
proof (induction ks arbitrary: s)
  case Nil
  then show ?case by simp
next
  case (Cons k ks)
  show ?case
  proof (cases "''entries'' \<in> set ks")
    case True
    then show ?thesis using Cons.IH Cons.prems(2)
      by (simp add: load_handler_length split: option.splits)
  next
    case False
    then have k: "k = ''entries''" using Cons.prems by simp
    have st: "st (SETTINGS_KEY @ ''/'' @ k) = Some (history_bytes es)"
      using assms(2) k by (simp add: key_simps [symmetric])
    have "entries_of_bytes (history_bytes es @ drop (length es * 8) (history_bytes (history s)))
            = es @ drop (length es) (history s)"
      by (simp add: drop_history_bytes history_bytes_append [symmetric] entries_of_history_bytes)
    then show ?thesis
      using False k st assms(3)
      by (simp add: load_subtree_history_absent settings_load_handler_def
          length_history_bytes sizeof_entry_def)
  qed
qed

text \<open>
  C3. Round trip. For every valid buffer state (the empty one included) whose array fits
  the 32-bit address space: when the backend accepts the writes, \<^verbatim>\<open>save_to_storage\<close>
  returns 0, and a startup load from the resulting store (the loader visiting both keys,
  in any order) rebuilds the same count and the same entries in the same order.
\<close>

theorem save_load_roundtrip:
  assumes "valid_state N s" "N * sizeof_entry < 2 ^ 32"
    and "be SETTINGS_KEY_COUNT = 0"
    and "history_count s = 0 \<or> be SETTINGS_KEY_ENTRIES = 0"
    and "''count'' \<in> set keys" "''entries'' \<in> set keys"
  shows "\<exists>st'. save_to_storage N be s st = Some (0, st')
           \<and> history_count (battery_history_init N keys st') = history_count s
           \<and> stored_entries (battery_history_init N keys st') = stored_entries s"
proof -
  have c: "0 \<le> history_count s" "history_count s \<le> int N"
    and len: "length (history s) = N"
    using assms(1) by (simp_all add: valid_state_def)
  have "int N * 8 < 2 ^ 32" using assms(2) by (simp add: sizeof_entry_def)
  then have lt: "history_count s < 2 ^ 31" using c by simp
  let ?cnt = "le32_bytes (word_of_int (history_count s))"
  have "\<exists>st'. save_to_storage N be s st = Some (0, st')"
    unfolding save_to_storage_valid [OF assms(1,2)]
    using assms(3,4) by (cases "0 < history_count s") auto
  then obtain st' where sv: "save_to_storage N be s st = Some (0, st')"
    by blast
  have kc: "st' SETTINGS_KEY_COUNT = Some ?cnt"
    using sv unfolding save_to_storage_valid [OF assms(1,2)]
    by (auto simp: key_simps split: if_splits)
  have ke: "0 < history_count s
      \<Longrightarrow> st' SETTINGS_KEY_ENTRIES = Some (history_bytes (stored_entries s))"
    using sv unfolding save_to_storage_valid [OF assms(1,2)]
    by (auto simp: key_simps split: if_splits)
  have cnt: "history_count (battery_history_init N keys st') = history_count s"
    unfolding battery_history_init_def
    using load_subtree_count [of keys st' ?cnt N "init_state N"] assms(5) kc
      sint_count [OF c(1) lt]
    by (simp add: length_le32_bytes sizeof_int_def)
  have ents: "stored_entries (battery_history_init N keys st') = stored_entries s"
  proof (cases "0 < history_count s")
    case True
    have l: "length (stored_entries s) = nat (history_count s)"
      using c len by (simp add: stored_entries_def)
    then have "length (stored_entries s) \<le> N" using c by simp
    then have "take (length (stored_entries s))
                 (history (settings_load_subtree N keys st' (init_state N))) = stored_entries s"
      using load_subtree_history [of keys st' "stored_entries s" N "init_state N"]
        assms(6) ke [OF True]
      by (simp add: init_state_def)
    then show ?thesis
      using cnt l by (simp add: stored_entries_def battery_history_init_def)
  next
    case False
    then show ?thesis using cnt c by (simp add: stored_entries_def)
  qed
  show ?thesis using sv cnt ents by simp
qed

theorem save_load_roundtrip_witness:
  "valid_state 2 \<lparr>history = [\<lparr>timestamp = 7, battery_percentage = 80\<rparr>, zero_entry],
                  history_count = 1\<rparr>
   \<and> 2 * sizeof_entry < 2 ^ 32
   \<and> backend_ok SETTINGS_KEY_COUNT = 0
   \<and> backend_ok SETTINGS_KEY_ENTRIES = 0
   \<and> ''count'' \<in> set [''entries'', ''count'']
   \<and> ''entries'' \<in> set [''entries'', ''count'']
   \<and> (\<exists>st'. save_to_storage 2 backend_ok
                \<lparr>history = [\<lparr>timestamp = 7, battery_percentage = 80\<rparr>, zero_entry],
                 history_count = 1\<rparr> Map.empty = Some (0, st')
         \<and> history_count (battery_history_init 2 [''entries'', ''count''] st') = 1
         \<and> stored_entries (battery_history_init 2 [''entries'', ''count''] st')
             = [\<lparr>timestamp = 7, battery_percentage = 80\<rparr>])"
proof -
  let ?s = "\<lparr>history = [\<lparr>timestamp = 7, battery_percentage = 80\<rparr>, zero_entry],
             history_count = 1\<rparr>"
  have h1: "valid_state 2 ?s" by (simp add: valid_state_def)
  have h2: "2 * sizeof_entry < 2 ^ 32" by (simp add: sizeof_entry_def)
  have h3: "backend_ok SETTINGS_KEY_COUNT = 0" by (simp add: backend_ok_def)
  have h4: "history_count ?s = 0 \<or> backend_ok SETTINGS_KEY_ENTRIES = 0"
    by (simp add: backend_ok_def)
  have h5: "''count'' \<in> set [''entries'', ''count'']" by simp
  have h6: "''entries'' \<in> set [''entries'', ''count'']" by simp
  from save_load_roundtrip [OF h1 h2 h3 h4 h5 h6, of Map.empty]
  obtain st' where "save_to_storage 2 backend_ok ?s Map.empty = Some (0, st')"
    "history_count (battery_history_init 2 [''entries'', ''count''] st') = history_count ?s"
    "stored_entries (battery_history_init 2 [''entries'', ''count''] st') = stored_entries ?s"
    by blast
  then show ?thesis
    using h1 h2 h3
    by (intro conjI exI [of _ st']) (simp_all add: stored_entries_def backend_ok_def)
qed

section \<open>Saving an empty buffer, clearing, reading\<close>

lemma le32_bytes_zero: "le32_bytes 0 = [0, 0, 0, 0]"
  by (simp add: le32_bytes_def)

lemma save_to_storage_empty:
  "history_count s \<le> 0 \<Longrightarrow> save_to_storage N be s st =
     Some (be SETTINGS_KEY_COUNT,
           if be SETTINGS_KEY_COUNT = 0
           then st(SETTINGS_KEY_COUNT \<mapsto> le32_bytes (word_of_int (history_count s))) else st)"
  by (simp add: save_to_storage_def settings_save_one_def)

text \<open>
  C10. Saving a buffer whose count is 0 writes the count key only (the value 0, when the
  backend accepts the write): the entries key keeps whatever value it had, and so does
  every other key.
\<close>

theorem save_empty_keeps_entries_key:
  assumes "history_count s = 0"
  shows "save_to_storage N be s st =
           Some (be SETTINGS_KEY_COUNT,
                 if be SETTINGS_KEY_COUNT = 0
                 then st(SETTINGS_KEY_COUNT \<mapsto> [0, 0, 0, 0]) else st)
         \<and> map_option (\<lambda>(rc, st'). st' SETTINGS_KEY_ENTRIES) (save_to_storage N be s st)
             = Some (st SETTINGS_KEY_ENTRIES)"
  using assms
  by (simp add: save_to_storage_empty le32_bytes_zero key_simps(1) [THEN not_sym])

theorem save_empty_keeps_entries_key_witness:
  "history_count \<lparr>history = [\<lparr>timestamp = 7, battery_percentage = 80\<rparr>, zero_entry],
                  history_count = 0\<rparr> = 0
   \<and> save_to_storage 2 backend_ok
        \<lparr>history = [\<lparr>timestamp = 7, battery_percentage = 80\<rparr>, zero_entry], history_count = 0\<rparr>
        [SETTINGS_KEY_COUNT \<mapsto> [1, 0, 0, 0], SETTINGS_KEY_ENTRIES \<mapsto> [7, 0, 0, 0, 80, 0, 0, 0]]
      = Some (0, [SETTINGS_KEY_COUNT \<mapsto> [0, 0, 0, 0],
                  SETTINGS_KEY_ENTRIES \<mapsto> [7, 0, 0, 0, 80, 0, 0, 0]])
   \<and> map_option (\<lambda>(rc, st'). st' SETTINGS_KEY_ENTRIES)
        (save_to_storage 2 backend_ok
          \<lparr>history = [\<lparr>timestamp = 7, battery_percentage = 80\<rparr>, zero_entry], history_count = 0\<rparr>
          [SETTINGS_KEY_COUNT \<mapsto> [1, 0, 0, 0], SETTINGS_KEY_ENTRIES \<mapsto> [7, 0, 0, 0, 80, 0, 0, 0]])
      = Some (Some [7, 0, 0, 0, 80, 0, 0, 0])"
proof -
  let ?s = "\<lparr>history = [\<lparr>timestamp = 7, battery_percentage = 80\<rparr>, zero_entry],
             history_count = 0\<rparr>"
  let ?st = "[SETTINGS_KEY_COUNT \<mapsto> [1, 0, 0, 0],
              SETTINGS_KEY_ENTRIES \<mapsto> [7::u8, 0, 0, 0, 80, 0, 0, 0]]"
  have h: "history_count ?s = 0" by simp
  have ne: "SETTINGS_KEY_ENTRIES \<noteq> SETTINGS_KEY_COUNT"
    by (simp add: SETTINGS_KEY_COUNT_def SETTINGS_KEY_ENTRIES_def SETTINGS_KEY_def)
  have "?st(SETTINGS_KEY_COUNT \<mapsto> [0, 0, 0, 0])
          = [SETTINGS_KEY_COUNT \<mapsto> [0, 0, 0, 0],
             SETTINGS_KEY_ENTRIES \<mapsto> [7::u8, 0, 0, 0, 80, 0, 0, 0]]"
    using ne by (simp add: fun_upd_twist)
  then show ?thesis
    using save_empty_keeps_entries_key [OF h, of 2 backend_ok ?st] ne
    by (simp add: backend_ok_def)
qed

text \<open>
  C6. For every buffer state, \<^verbatim>\<open>battery_history_clear\<close> returns the code of the count
  write; afterwards the count query gives 0 and no entry is stored. When the write
  succeeded, a startup load from the store gives count 0 too; when it failed, the store
  is as before, the buffer is empty all the same, and the error code is what the caller
  gets.
\<close>

theorem clear_law:
  assumes "''count'' \<in> set keys"
  shows "\<exists>rc s' st'. battery_history_clear N be s st = Some (rc, s', st')
           \<and> rc = be SETTINGS_KEY_COUNT
           \<and> battery_history_get_count s' = 0
           \<and> stored_entries s' = []
           \<and> (rc = 0 \<longrightarrow> history_count (battery_history_init N keys st') = 0
                          \<and> stored_entries (battery_history_init N keys st') = [])
           \<and> (rc \<noteq> 0 \<longrightarrow> st' = st)"
proof -
  let ?s = "s\<lparr>history_count := 0\<rparr>"
  let ?st = "st(SETTINGS_KEY_COUNT \<mapsto> [0, 0, 0, 0])"
  have cl: "battery_history_clear N be s st =
      Some (be SETTINGS_KEY_COUNT, ?s, if be SETTINGS_KEY_COUNT = 0 then ?st else st)"
    by (simp add: battery_history_clear_def Let_def save_to_storage_empty le32_bytes_zero)
  have "history_count (battery_history_init N keys ?st) = 0"
    unfolding battery_history_init_def
    using load_subtree_count [of keys ?st "[0, 0, 0, 0]" N "init_state N"] assms
    by (simp add: sizeof_int_def)
  then show ?thesis
    using cl by (simp add: battery_history_get_count_def stored_entries_def)
qed


theorem clear_law_witness:
  "''count'' \<in> set [''entries'', ''count'']
   \<and> (\<exists>s' st'. battery_history_clear 2 backend_ok
          \<lparr>history = [\<lparr>timestamp = 7, battery_percentage = 80\<rparr>, zero_entry], history_count = 1\<rparr>
          [SETTINGS_KEY_COUNT \<mapsto> [1, 0, 0, 0], SETTINGS_KEY_ENTRIES \<mapsto> [7, 0, 0, 0, 80, 0, 0, 0]]
        = Some (0, s', st')
        \<and> battery_history_get_count s' = 0
        \<and> stored_entries s' = []
        \<and> history_count (battery_history_init 2 [''entries'', ''count''] st') = 0
        \<and> stored_entries (battery_history_init 2 [''entries'', ''count''] st') = [])
   \<and> (\<exists>s'. battery_history_clear 2 backend_fails
          \<lparr>history = [\<lparr>timestamp = 7, battery_percentage = 80\<rparr>, zero_entry], history_count = 1\<rparr>
          [SETTINGS_KEY_COUNT \<mapsto> [1, 0, 0, 0], SETTINGS_KEY_ENTRIES \<mapsto> [7, 0, 0, 0, 80, 0, 0, 0]]
        = Some (- 5, s',
                [SETTINGS_KEY_COUNT \<mapsto> [1, 0, 0, 0],
                 SETTINGS_KEY_ENTRIES \<mapsto> [7, 0, 0, 0, 80, 0, 0, 0]])
        \<and> battery_history_get_count s' = 0
        \<and> stored_entries s' = [])"
proof -
  let ?s = "\<lparr>history = [\<lparr>timestamp = 7, battery_percentage = 80\<rparr>, zero_entry],
             history_count = 1\<rparr>"
  let ?st = "[SETTINGS_KEY_COUNT \<mapsto> [1, 0, 0, 0],
              SETTINGS_KEY_ENTRIES \<mapsto> [7::u8, 0, 0, 0, 80, 0, 0, 0]]"
  have h: "''count'' \<in> set [''entries'', ''count'']" by simp
  have a: "\<exists>s' st'. battery_history_clear 2 backend_ok ?s ?st = Some (0, s', st')
        \<and> battery_history_get_count s' = 0
        \<and> stored_entries s' = []
        \<and> history_count (battery_history_init 2 [''entries'', ''count''] st') = 0
        \<and> stored_entries (battery_history_init 2 [''entries'', ''count''] st') = []"
    using clear_law [OF h, of 2 backend_ok ?s ?st] by (auto simp: backend_ok_def)
  have b: "\<exists>s'. battery_history_clear 2 backend_fails ?s ?st = Some (- 5, s', ?st)
        \<and> battery_history_get_count s' = 0
        \<and> stored_entries s' = []"
    using clear_law [OF h, of 2 backend_fails ?s ?st] by (auto simp: backend_fails_def)
  show ?thesis by (intro conjI h a b)
qed

text \<open>
  C7. For every valid buffer state and every \<open>max_entries > 0\<close> (the caller's array
  holding at least that many cells), \<^verbatim>\<open>battery_history_get_entries\<close> returns
  \<open>min count max_entries\<close> and puts that many entries, oldest first, at the start of
  the caller's array; the buffer is unchanged. With \<open>max_entries = 0\<close> it returns
  \<open>-EINVAL\<close> and touches neither the array nor the buffer.
\<close>

theorem get_entries_law:
  assumes "valid_state N s" "N * sizeof_entry < 2 ^ 32"
    and "0 < max_entries" "max_entries \<le> int (length dst)"
  shows "battery_history_get_entries N s (Some dst) max_entries =
           Some (min (history_count s) max_entries,
                 Some (take (nat (min (history_count s) max_entries)) (stored_entries s)
                         @ drop (nat (min (history_count s) max_entries)) dst),
                 s)
         \<and> battery_history_get_entries N s entries 0 = Some (- EINVAL, entries, s)"
proof -
  let ?c = "min (history_count s) max_entries"
  have c: "0 \<le> history_count s" "history_count s \<le> int N"
    using assms(1) by (simp_all add: valid_state_def)
  have c0: "0 \<le> ?c" "?c \<le> int N" "?c \<le> int (length dst)" using c assms(3,4) by auto
  have "?c * 8 \<le> int N * 8" using c0 by simp
  also have "\<dots> < 2 ^ 32" using assms(2) by (simp add: sizeof_entry_def)
  finally have m: "(?c * 8) mod 2 ^ 32 = ?c * 8" using c0 by simp
  have L: "nat ((?c * int sizeof_entry) mod 2 ^ 32) = nat ?c * 8"
    using m c0 by (simp add: sizeof_entry_def nat_mult_distrib)
  have le: "nat ?c \<le> N" "nat ?c \<le> length dst" using c0 by auto
  have t: "take (nat ?c) (history s) = take (nat ?c) (stored_entries s)"
    by (simp add: stored_entries_def min_def)
  have cdef: "(if history_count s < max_entries then history_count s else max_entries) = ?c"
    by (simp add: min_def)
  have "battery_history_get_entries N s (Some dst) max_entries =
           Some (?c, Some (take (nat ?c) (history s) @ drop (nat ?c) dst), s)"
    unfolding battery_history_get_entries_def cdef Let_def L
    using assms(3) le by (simp add: sizeof_entry_def)
  moreover have "battery_history_get_entries N s entries 0 = Some (- EINVAL, entries, s)"
    by (simp add: battery_history_get_entries_def split: option.splits)
  ultimately show ?thesis using t by simp
qed


theorem get_entries_law_witness:
  "valid_state 2 \<lparr>history = [\<lparr>timestamp = 7, battery_percentage = 80\<rparr>,
                             \<lparr>timestamp = 9, battery_percentage = 70\<rparr>], history_count = 2\<rparr>
   \<and> 2 * sizeof_entry < 2 ^ 32 \<and> (0::int) < 1 \<and> (1::int) \<le> int (length [zero_entry])
   \<and> battery_history_get_entries 2
        \<lparr>history = [\<lparr>timestamp = 7, battery_percentage = 80\<rparr>,
                    \<lparr>timestamp = 9, battery_percentage = 70\<rparr>], history_count = 2\<rparr>
        (Some [zero_entry]) 1
      = Some (1, Some [\<lparr>timestamp = 7, battery_percentage = 80\<rparr>],
              \<lparr>history = [\<lparr>timestamp = 7, battery_percentage = 80\<rparr>,
                          \<lparr>timestamp = 9, battery_percentage = 70\<rparr>], history_count = 2\<rparr>)
   \<and> battery_history_get_entries 2
        \<lparr>history = [\<lparr>timestamp = 7, battery_percentage = 80\<rparr>,
                    \<lparr>timestamp = 9, battery_percentage = 70\<rparr>], history_count = 2\<rparr>
        (Some [zero_entry]) 0
      = Some (- EINVAL, Some [zero_entry],
              \<lparr>history = [\<lparr>timestamp = 7, battery_percentage = 80\<rparr>,
                          \<lparr>timestamp = 9, battery_percentage = 70\<rparr>], history_count = 2\<rparr>)"
proof -
  let ?s = "\<lparr>history = [\<lparr>timestamp = 7, battery_percentage = 80\<rparr>,
                        \<lparr>timestamp = 9, battery_percentage = 70\<rparr>], history_count = 2\<rparr>"
  have h1: "valid_state 2 ?s" by (simp add: valid_state_def)
  have h2: "2 * sizeof_entry < 2 ^ 32" by (simp add: sizeof_entry_def)
  have h3: "(0::int) < 1" by simp
  have h4: "(1::int) \<le> int (length [zero_entry])" by simp
  show ?thesis
    using get_entries_law [OF h1 h2 h3 h4, of "Some [zero_entry]"] h1 h2
    by (simp add: stored_entries_def)
qed

text \<open>
  C9. When the request payload does not decode, and when it decodes to a request type
  the handler does not know, the handler puts an error response with a message in the
  response buffer, returns \<open>true\<close>, and leaves the buffer and the store as they were.
\<close>

theorem rpc_error_response:
  assumes "pb_decode payload = None \<or> pb_decode payload = Some (Request_other_tag t)"
  shows "battery_history_rpc_handle_request N be pb_decode soc payload s st =
           Some (True,
                 Response_error (if pb_decode payload = None then ''Failed to decode request''
                                 else ''Failed to process request''),
                 s, st)"
  using assms by (auto simp: battery_history_rpc_handle_request_def)


theorem rpc_error_response_witness:
  "(pb_decode_fails [1, 2, 3] = None \<or> pb_decode_fails [1, 2, 3] = Some (Request_other_tag 7))
   \<and> battery_history_rpc_handle_request 2 backend_ok pb_decode_fails 55 [1, 2, 3]
        (init_state 2) Map.empty
      = Some (True, Response_error ''Failed to decode request'', init_state 2, Map.empty)
   \<and> (pb_decode_unknown [8, 0] = None \<or> pb_decode_unknown [8, 0] = Some (Request_other_tag 7))
   \<and> battery_history_rpc_handle_request 2 backend_ok pb_decode_unknown 55 [8, 0]
        (init_state 2) Map.empty
      = Some (True, Response_error ''Failed to process request'', init_state 2, Map.empty)"
proof -
  have h: "pb_decode_fails [1, 2, 3] = None \<or> pb_decode_fails [1, 2, 3] = Some (Request_other_tag 7)"
    by (simp add: pb_decode_fails_def)
  have a: "battery_history_rpc_handle_request 2 backend_ok pb_decode_fails 55 [1, 2, 3]
        (init_state 2) Map.empty
      = Some (True, Response_error ''Failed to decode request'', init_state 2, Map.empty)"
    using rpc_error_response [of pb_decode_fails "[1, 2, 3]" 7 2 backend_ok 55
        "init_state 2" Map.empty] h
    by (simp add: pb_decode_fails_def)
  have g: "pb_decode_unknown [8, 0] = None \<or> pb_decode_unknown [8, 0] = Some (Request_other_tag 7)"
    by (simp add: pb_decode_unknown_def)
  have b: "battery_history_rpc_handle_request 2 backend_ok pb_decode_unknown 55 [8, 0]
        (init_state 2) Map.empty
      = Some (True, Response_error ''Failed to process request'', init_state 2, Map.empty)"
    using rpc_error_response [of pb_decode_unknown "[8, 0]" 7 2 backend_ok 55
        "init_state 2" Map.empty] g
    by (simp add: pb_decode_unknown_def)
  show ?thesis by (intro conjI h a g b)
qed

section \<open>Properties of the recording policy\<close>

lemma append_and_save_valid:
  assumes "valid_state N s" "0 < N" "N * sizeof_entry < 2 ^ 32"
  shows "\<exists>s1 rc st1. add_history_entry N ts soc s = Some s1
           \<and> save_to_storage N be s1 st = Some (rc, st1)
           \<and> valid_state N s1
           \<and> stored_entries s1 =
               keep_last N (stored_entries s @ [\<lparr>timestamp = ts, battery_percentage = soc\<rparr>])"
proof -
  obtain s1 where s1: "add_history_entry N ts soc s = Some s1" "valid_state N s1"
    "stored_entries s1 =
       keep_last N (stored_entries s @ [\<lparr>timestamp = ts, battery_percentage = soc\<rparr>])"
    using add_history_entry_valid [OF assms(1,2)] by blast
  obtain rc st1 where "save_to_storage N be s1 st = Some (rc, st1)"
    using save_to_storage_valid [OF s1(2) assms(3), of be st] by (metis surj_pair)
  then show ?thesis using s1 by blast
qed

lemma save_battery_state_valid:
  assumes "valid_state N s" "0 < N" "N * sizeof_entry < 2 ^ 32"
  shows "\<exists>s1 st1. save_battery_state N be soc uptime s st = Some (s1, st1)
           \<and> valid_state N s1
           \<and> stored_entries s1 =
               keep_last N (stored_entries s
                  @ [\<lparr>timestamp = get_current_timestamp uptime, battery_percentage = soc\<rparr>])"
  using append_and_save_valid [OF assms, of "get_current_timestamp uptime" soc be st]
  by (auto simp: save_battery_state_def)

lemma last_stored_entry:
  assumes "valid_state N s" "history_count s \<noteq> 0"
  shows "history s ! nat (history_count s - 1) = last (stored_entries s)"
proof -
  have c: "0 < history_count s" "history_count s \<le> int N" and len: "length (history s) = N"
    using assms by (simp_all add: valid_state_def)
  then have l: "length (stored_entries s) = nat (history_count s)"
    by (simp add: stored_entries_def)
  then have ne: "stored_entries s \<noteq> []" using c by auto
  have "last (stored_entries s) = stored_entries s ! (nat (history_count s) - 1)"
    using ne l by (simp add: last_conv_nth)
  also have "\<dots> = history s ! (nat (history_count s) - 1)"
    using c by (simp add: stored_entries_def)
  finally show ?thesis using c by (simp add: nat_diff_distrib')
qed

lemma listener_step:
  assumes "valid_state N s" "0 < N" "N * sizeof_entry < 2 ^ 32"
    and "add_history_entry N (get_current_timestamp uptime) soc s = Some s1"
    and "save_to_storage N be s1 st = Some (rc, st1)"
  shows "battery_state_changed_listener N be (Some soc) uptime s st =
     (if history_count s = 0
         \<or> 5 \<le> \<bar>uint soc - uint (battery_percentage (last (stored_entries s)))\<bar>
      then Some (0, s1, st1) else Some (0, s, st))"
proof (cases "history_count s = 0")
  case True
  then show ?thesis
    using assms(4,5) by (simp add: battery_state_changed_listener_def)
next
  case False
  have c: "0 < history_count s" "history_count s \<le> int N"
    using assms(1) False by (simp_all add: valid_state_def)
  show ?thesis
    using False c last_stored_entry [OF assms(1) False] assms(4,5)
    by (auto simp: battery_state_changed_listener_def Let_def abs_if)
qed

lemma stored_entries_Nil_iff:
  "valid_state N s \<Longrightarrow> stored_entries s = [] \<longleftrightarrow> history_count s = 0"
  using length_stored_entries [of N s] by auto

lemma dispatch_level_changed:
  assumes "valid_state N (buffer d)" "0 < N" "N * sizeof_entry < 2 ^ 32"
  shows "\<exists>d'. dispatch N be report (Level_changed soc uptime) d = Some d'
           \<and> valid_state N (buffer d')
           \<and> stored_entries (buffer d') =
               (if stored_entries (buffer d) = []
                   \<or> 5 \<le> \<bar>uint soc - uint (battery_percentage (last (stored_entries (buffer d))))\<bar>
                then keep_last N (stored_entries (buffer d)
                       @ [\<lparr>timestamp = get_current_timestamp uptime, battery_percentage = soc\<rparr>])
                else stored_entries (buffer d))"
proof -
  obtain s1 rc st1 where s1:
    "add_history_entry N (get_current_timestamp uptime) soc (buffer d) = Some s1"
    "save_to_storage N be s1 (store d) = Some (rc, st1)"
    "valid_state N s1"
    "stored_entries s1 = keep_last N (stored_entries (buffer d)
        @ [\<lparr>timestamp = get_current_timestamp uptime, battery_percentage = soc\<rparr>])"
    using append_and_save_valid [OF assms, of "get_current_timestamp uptime" soc be "store d"]
    by blast
  show ?thesis
    using s1(3,4) assms(1)
    by (simp add: dispatch_def listener_step [OF assms s1(1,2)]
        stored_entries_Nil_iff [OF assms(1)])
qed

lemma level_example:
  assumes "2 \<le> N" "N * sizeof_entry < 2 ^ 32"
  shows "\<exists>d. dispatch_all N be report
                [Level_changed 80 t1, Level_changed 83 t2, Level_changed 90 t3, Level_changed 88 t4]
                \<lparr>buffer = init_state N, store = st, link = l\<rparr> = Some d
             \<and> map battery_percentage (stored_entries (buffer d)) = [80, 90]"
proof -
  have N: "0 < N" using assms by simp
  let ?d0 = "\<lparr>buffer = init_state N, store = st, link = l\<rparr>"
  have v0: "valid_state N (buffer ?d0)" by (simp add: valid_init_state)
  obtain d1 where d1: "dispatch N be report (Level_changed 80 t1) ?d0 = Some d1"
    "valid_state N (buffer d1)"
    "stored_entries (buffer d1) = [\<lparr>timestamp = get_current_timestamp t1, battery_percentage = 80\<rparr>]"
    using dispatch_level_changed [OF v0 N assms(2), of be report 80 t1] N
    by (auto simp: stored_entries_init_state keep_last_def)
  obtain d2 where d2: "dispatch N be report (Level_changed 83 t2) d1 = Some d2"
    "valid_state N (buffer d2)"
    "stored_entries (buffer d2) = [\<lparr>timestamp = get_current_timestamp t1, battery_percentage = 80\<rparr>]"
    using dispatch_level_changed [OF d1(2) N assms(2), of be report 83 t2] d1(3)
    by auto
  obtain d3 where d3: "dispatch N be report (Level_changed 90 t3) d2 = Some d3"
    "valid_state N (buffer d3)"
    "stored_entries (buffer d3) = [\<lparr>timestamp = get_current_timestamp t1, battery_percentage = 80\<rparr>,
                                   \<lparr>timestamp = get_current_timestamp t3, battery_percentage = 90\<rparr>]"
    using dispatch_level_changed [OF d2(2) N assms(2), of be report 90 t3] d2(3) assms(1)
    by (auto simp: keep_last_def)
  obtain d4 where d4: "dispatch N be report (Level_changed 88 t4) d3 = Some d4"
    "valid_state N (buffer d4)"
    "stored_entries (buffer d4) = [\<lparr>timestamp = get_current_timestamp t1, battery_percentage = 80\<rparr>,
                                   \<lparr>timestamp = get_current_timestamp t3, battery_percentage = 90\<rparr>]"
    using dispatch_level_changed [OF d3(2) N assms(2), of be report 88 t4] d3(3)
    by auto
  show ?thesis using d1(1) d2(1) d3(1) d4(1,3) by simp
qed


text \<open>
  C4. On a level change, from every valid state: when the buffer is empty the sample is
  appended (and the buffer saved); otherwise it is appended exactly when the absolute
  difference from the level of the last stored entry is at least 5, and else nothing
  changes. Starting empty with room for two entries, the levels 80, 83, 90, 88 delivered
  with no periodic tick in between leave exactly the levels 80, 90 stored.
\<close>

theorem level_change_threshold:
  assumes "valid_state N s" "0 < N" "N * sizeof_entry < 2 ^ 32"
  shows "(\<exists>s1 rc st1. add_history_entry N (get_current_timestamp uptime) soc s = Some s1
            \<and> save_to_storage N be s1 st = Some (rc, st1)
            \<and> stored_entries s1 =
                keep_last N (stored_entries s
                   @ [\<lparr>timestamp = get_current_timestamp uptime, battery_percentage = soc\<rparr>])
            \<and> battery_state_changed_listener N be (Some soc) uptime s st =
                (if history_count s = 0
                    \<or> 5 \<le> \<bar>uint soc - uint (battery_percentage (last (stored_entries s)))\<bar>
                 then Some (0, s1, st1) else Some (0, s, st)))
         \<and> (2 \<le> N \<longrightarrow>
              (\<exists>d. dispatch_all N be report
                      [Level_changed 80 t1, Level_changed 83 t2,
                       Level_changed 90 t3, Level_changed 88 t4]
                      \<lparr>buffer = init_state N, store = st0, link = l\<rparr> = Some d
                 \<and> map battery_percentage (stored_entries (buffer d)) = [80, 90]))"
proof -
  obtain s1 rc st1 where s1:
    "add_history_entry N (get_current_timestamp uptime) soc s = Some s1"
    "save_to_storage N be s1 st = Some (rc, st1)"
    "stored_entries s1 =
       keep_last N (stored_entries s
          @ [\<lparr>timestamp = get_current_timestamp uptime, battery_percentage = soc\<rparr>])"
    using append_and_save_valid [OF assms, of "get_current_timestamp uptime" soc be st]
    by blast
  have a: "\<exists>s1 rc st1. add_history_entry N (get_current_timestamp uptime) soc s = Some s1
            \<and> save_to_storage N be s1 st = Some (rc, st1)
            \<and> stored_entries s1 =
                keep_last N (stored_entries s
                   @ [\<lparr>timestamp = get_current_timestamp uptime, battery_percentage = soc\<rparr>])
            \<and> battery_state_changed_listener N be (Some soc) uptime s st =
                (if history_count s = 0
                    \<or> 5 \<le> \<bar>uint soc - uint (battery_percentage (last (stored_entries s)))\<bar>
                 then Some (0, s1, st1) else Some (0, s, st))"
    using s1 listener_step [OF assms s1(1,2)] by blast
  have b: "2 \<le> N \<longrightarrow>
              (\<exists>d. dispatch_all N be report
                      [Level_changed 80 t1, Level_changed 83 t2,
                       Level_changed 90 t3, Level_changed 88 t4]
                      \<lparr>buffer = init_state N, store = st0, link = l\<rparr> = Some d
                 \<and> map battery_percentage (stored_entries (buffer d)) = [80, 90])"
    using level_example [OF _ assms(3)] by blast
  show ?thesis by (intro conjI a b)
qed

theorem level_change_threshold_witness:
  "valid_state 2 (init_state 2) \<and> (0::nat) < 2 \<and> 2 * sizeof_entry < 2 ^ 32 \<and> (2::nat) \<le> 2
   \<and> (\<exists>s1 st1. battery_state_changed_listener 2 backend_ok (Some 80) 1000 (init_state 2) Map.empty
                   = Some (0, s1, st1)
         \<and> stored_entries s1 = [\<lparr>timestamp = 1, battery_percentage = 80\<rparr>])
   \<and> (\<exists>d. dispatch_all 2 backend_ok report_ok
              [Level_changed 80 1000, Level_changed 83 2000,
               Level_changed 90 3000, Level_changed 88 4000]
              \<lparr>buffer = init_state 2, store = Map.empty, link = []\<rparr> = Some d
         \<and> map battery_percentage (stored_entries (buffer d)) = [80, 90])"
proof -
  have h1: "valid_state 2 (init_state 2)" by (rule valid_init_state)
  have h2: "(0::nat) < 2" by simp
  have h3: "2 * sizeof_entry < 2 ^ 32" by (simp add: sizeof_entry_def)
  have h4: "(2::nat) \<le> 2" by simp
  note th = level_change_threshold [OF h1 h2 h3, of 1000 80 backend_ok Map.empty report_ok
      1000 2000 3000 4000 Map.empty "[]"]
  from conjunct1 [OF th] obtain s1 st1 where s1:
    "stored_entries s1 =
       keep_last 2 (stored_entries (init_state 2)
          @ [\<lparr>timestamp = get_current_timestamp 1000, battery_percentage = 80\<rparr>])"
    "battery_state_changed_listener 2 backend_ok (Some 80) 1000 (init_state 2) Map.empty =
       (if history_count (init_state 2) = 0
           \<or> 5 \<le> \<bar>uint (80::u8)
                     - uint (battery_percentage (last (stored_entries (init_state 2))))\<bar>
        then Some (0, s1, st1) else Some (0, init_state 2, Map.empty))"
    by blast
  have e: "stored_entries s1 = [\<lparr>timestamp = 1, battery_percentage = 80\<rparr>]"
    unfolding s1(1) stored_entries_init_state
    by (simp add: keep_last_def get_current_timestamp_def)
  have "history_count (init_state 2) = 0" by (simp add: init_state_def)
  then have l: "battery_state_changed_listener 2 backend_ok (Some 80) 1000 (init_state 2)
      Map.empty = Some (0, s1, st1)"
    unfolding s1(2) by (simp only: simp_thms if_True)
  have a: "\<exists>s1 st1.
      battery_state_changed_listener 2 backend_ok (Some 80) 1000 (init_state 2) Map.empty
        = Some (0, s1, st1)
      \<and> stored_entries s1 = [\<lparr>timestamp = 1, battery_percentage = 80\<rparr>]"
    using l e by blast
  have b: "\<exists>d. dispatch_all 2 backend_ok report_ok
              [Level_changed 80 1000, Level_changed 83 2000,
               Level_changed 90 3000, Level_changed 88 4000]
              \<lparr>buffer = init_state 2, store = Map.empty, link = []\<rparr> = Some d
         \<and> map battery_percentage (stored_entries (buffer d)) = [80, 90]"
    by (rule mp [OF conjunct2 [OF th] h4])
  show ?thesis by (intro conjI h1 h2 h3 h4 a b)
qed

section \<open>Properties of the relay\<close>

lemma relay_chunk_copy:
  "\<lparr>chunk_timestamp = chunk_timestamp c, battery_level = battery_level c,
    entry_index = entry_index c, total_entries = total_entries c, is_last = is_last c\<rparr> = c"
  by (cases c) simp

lemma peripheral_listener_event:
  "battery_history_peripheral_listener report (Some e) l =
     (ZMK_EV_EVENT_HANDLED, if report e < 0 then l else l @ [e])"
  by (simp add: battery_history_peripheral_listener_def Let_def relay_chunk_copy)

lemma dispatch_all_entry_events:
  "dispatch_all N be report (map History_entry_event cs) d =
     Some (d\<lparr>link := link d @ filter (\<lambda>c. 0 \<le> report c) cs\<rparr>)"
proof (induction cs arbitrary: d)
  case Nil
  then show ?case by simp
next
  case (Cons c cs)
  show ?case
    by (simp add: Cons.IH dispatch_def peripheral_listener_event not_less)
qed

lemma device_update_eq:
  "d\<lparr>buffer := s1, store := st1\<rparr> = \<lparr>buffer = s1, store = st1, link = link d\<rparr>"
  by (cases d) simp

lemma append_and_save_store:
  assumes "valid_state N s" "0 < N" "N * sizeof_entry < 2 ^ 32"
  shows "\<exists>s1 rc st1. add_history_entry N ts soc s = Some s1
           \<and> stored_entries s1 =
               keep_last N (stored_entries s @ [\<lparr>timestamp = ts, battery_percentage = soc\<rparr>])
           \<and> save_to_storage N be s1 st = Some (rc, st1)
           \<and> st1 = (if be SETTINGS_KEY_COUNT \<noteq> 0 then st
                    else if be SETTINGS_KEY_ENTRIES \<noteq> 0
                    then st(SETTINGS_KEY_COUNT \<mapsto> le32_bytes (word_of_int (history_count s1)))
                    else st(SETTINGS_KEY_COUNT \<mapsto> le32_bytes (word_of_int (history_count s1)),
                            SETTINGS_KEY_ENTRIES \<mapsto> history_bytes (stored_entries s1)))"
proof -
  obtain s1 where s1: "add_history_entry N ts soc s = Some s1" "valid_state N s1"
    "stored_entries s1 =
       keep_last N (stored_entries s @ [\<lparr>timestamp = ts, battery_percentage = soc\<rparr>])"
    using add_history_entry_valid [OF assms(1,2)] by blast
  have "stored_entries s1 \<noteq> []"
    using s1(3) assms(2) by (simp add: keep_last_def)
  then have pos: "0 < history_count s1"
    using length_stored_entries [OF s1(2)] by (cases "stored_entries s1") auto
  show ?thesis
    using s1(1,3) pos by (simp add: save_to_storage_valid [OF s1(2) assms(3)])
qed

text \<open>
  C8, as the sources have it. From every valid buffer state, an append event of the
  recording policy (the periodic tick, or a level change that is accepted: the buffer is
  empty or the level is at least 5 away from the last stored one) appends the entry as
  the newest, dropping the oldest when the buffer is full, and attempts a save of the
  new buffer, whose result is dropped: the store is unchanged when the backend refuses
  the count write, holds the new count when it refuses only the entries write, and the
  new count and entries when it accepts both. These handlers send nothing: the link is
  as before. The peripheral listener forwards each battery history entry event it is
  given as one message with the event's timestamp, level, index, total and last-flag,
  unless the transport refuses it; a sequence of such events is forwarded in order,
  each refused one dropped and the rest still sent.
\<close>

theorem relay_forwarding:
  assumes "valid_state N (buffer d)" "0 < N" "N * sizeof_entry < 2 ^ 32"
  shows "(\<exists>s1 rc st1.
            add_history_entry N (get_current_timestamp uptime) soc (buffer d) = Some s1
          \<and> stored_entries s1 =
              keep_last N (stored_entries (buffer d)
                 @ [\<lparr>timestamp = get_current_timestamp uptime, battery_percentage = soc\<rparr>])
          \<and> save_to_storage N be s1 (store d) = Some (rc, st1)
          \<and> st1 = (if be SETTINGS_KEY_COUNT \<noteq> 0 then store d
                   else if be SETTINGS_KEY_ENTRIES \<noteq> 0
                   then (store d)(SETTINGS_KEY_COUNT \<mapsto>
                                    le32_bytes (word_of_int (history_count s1)))
                   else (store d)(SETTINGS_KEY_COUNT \<mapsto>
                                    le32_bytes (word_of_int (history_count s1)),
                                  SETTINGS_KEY_ENTRIES \<mapsto> history_bytes (stored_entries s1)))
          \<and> dispatch N be report (Periodic_tick soc uptime) d
              = Some \<lparr>buffer = s1, store = st1, link = link d\<rparr>
          \<and> dispatch N be report (Level_changed soc uptime) d
              = Some (if history_count (buffer d) = 0
                         \<or> 5 \<le> \<bar>uint soc
                                  - uint (battery_percentage (last (stored_entries (buffer d))))\<bar>
                      then \<lparr>buffer = s1, store = st1, link = link d\<rparr> else d))
         \<and> dispatch N be report (History_entry_event e) d
             = Some (d\<lparr>link := if report e < 0 then link d else link d @ [e]\<rparr>)
         \<and> dispatch_all N be report (map History_entry_event cs) d
             = Some (d\<lparr>link := link d @ filter (\<lambda>c. 0 \<le> report c) cs\<rparr>)"
proof -
  let ?ts = "get_current_timestamp uptime"
  obtain s1 rc st1 where s1:
    "add_history_entry N ?ts soc (buffer d) = Some s1"
    "stored_entries s1 =
       keep_last N (stored_entries (buffer d) @ [\<lparr>timestamp = ?ts, battery_percentage = soc\<rparr>])"
    "save_to_storage N be s1 (store d) = Some (rc, st1)"
    "st1 = (if be SETTINGS_KEY_COUNT \<noteq> 0 then store d
            else if be SETTINGS_KEY_ENTRIES \<noteq> 0
            then (store d)(SETTINGS_KEY_COUNT \<mapsto> le32_bytes (word_of_int (history_count s1)))
            else (store d)(SETTINGS_KEY_COUNT \<mapsto> le32_bytes (word_of_int (history_count s1)),
                           SETTINGS_KEY_ENTRIES \<mapsto> history_bytes (stored_entries s1)))"
    using append_and_save_store [OF assms, of ?ts soc be "store d"] by blast
  have tick: "dispatch N be report (Periodic_tick soc uptime) d
      = Some \<lparr>buffer = s1, store = st1, link = link d\<rparr>"
    using s1(1,3) by (simp add: dispatch_def save_battery_state_def device_update_eq)
  have level: "dispatch N be report (Level_changed soc uptime) d
      = Some (if history_count (buffer d) = 0
                 \<or> 5 \<le> \<bar>uint soc
                          - uint (battery_percentage (last (stored_entries (buffer d))))\<bar>
              then \<lparr>buffer = s1, store = st1, link = link d\<rparr> else d)"
    by (simp add: dispatch_def listener_step [OF assms s1(1,3)] device_update_eq)
  have a: "\<exists>s1 rc st1.
            add_history_entry N ?ts soc (buffer d) = Some s1
          \<and> stored_entries s1 =
              keep_last N (stored_entries (buffer d)
                 @ [\<lparr>timestamp = ?ts, battery_percentage = soc\<rparr>])
          \<and> save_to_storage N be s1 (store d) = Some (rc, st1)
          \<and> st1 = (if be SETTINGS_KEY_COUNT \<noteq> 0 then store d
                   else if be SETTINGS_KEY_ENTRIES \<noteq> 0
                   then (store d)(SETTINGS_KEY_COUNT \<mapsto>
                                    le32_bytes (word_of_int (history_count s1)))
                   else (store d)(SETTINGS_KEY_COUNT \<mapsto>
                                    le32_bytes (word_of_int (history_count s1)),
                                  SETTINGS_KEY_ENTRIES \<mapsto> history_bytes (stored_entries s1)))
          \<and> dispatch N be report (Periodic_tick soc uptime) d
              = Some \<lparr>buffer = s1, store = st1, link = link d\<rparr>
          \<and> dispatch N be report (Level_changed soc uptime) d
              = Some (if history_count (buffer d) = 0
                         \<or> 5 \<le> \<bar>uint soc
                                  - uint (battery_percentage (last (stored_entries (buffer d))))\<bar>
                      then \<lparr>buffer = s1, store = st1, link = link d\<rparr> else d)"
    using s1 tick level by blast
  have b: "dispatch N be report (History_entry_event e) d
             = Some (d\<lparr>link := if report e < 0 then link d else link d @ [e]\<rparr>)"
    by (simp add: dispatch_def peripheral_listener_event)
  show ?thesis by (intro conjI a b dispatch_all_entry_events)
qed

theorem relay_forwarding_witness:
  "valid_state 2 (buffer \<lparr>buffer = init_state 2, store = Map.empty, link = []\<rparr>)
   \<and> (0::nat) < 2 \<and> 2 * sizeof_entry < 2 ^ 32
   \<and> (\<exists>s1 st1. dispatch 2 backend_ok report_ok (Periodic_tick 80 1000)
                   \<lparr>buffer = init_state 2, store = Map.empty, link = []\<rparr>
                 = Some \<lparr>buffer = s1, store = st1, link = []\<rparr>
         \<and> stored_entries s1 = [\<lparr>timestamp = 1, battery_percentage = 80\<rparr>]
         \<and> st1 SETTINGS_KEY_ENTRIES = Some [1, 0, 0, 0, 80, 0, 0, 0])
   \<and> (\<exists>s1. dispatch 2 backend_fails report_ok (Level_changed 80 1000)
                   \<lparr>buffer = init_state 2, store = Map.empty, link = []\<rparr>
                 = Some \<lparr>buffer = s1, store = Map.empty, link = []\<rparr>
         \<and> stored_entries s1 = [\<lparr>timestamp = 1, battery_percentage = 80\<rparr>])
   \<and> dispatch 2 backend_ok report_ok
         (History_entry_event \<lparr>chunk_timestamp = 1, battery_level = 80, entry_index = 0,
                               total_entries = 2, is_last = False\<rparr>)
         \<lparr>buffer = init_state 2, store = Map.empty, link = []\<rparr>
       = Some \<lparr>buffer = init_state 2, store = Map.empty,
               link = [\<lparr>chunk_timestamp = 1, battery_level = 80, entry_index = 0,
                        total_entries = 2, is_last = False\<rparr>]\<rparr>
   \<and> dispatch_all 2 backend_ok report_ok
         (map History_entry_event
            [\<lparr>chunk_timestamp = 1, battery_level = 80, entry_index = 0,
              total_entries = 2, is_last = False\<rparr>,
             \<lparr>chunk_timestamp = 2, battery_level = 75, entry_index = 1,
              total_entries = 2, is_last = True\<rparr>])
         \<lparr>buffer = init_state 2, store = Map.empty, link = []\<rparr>
       = Some \<lparr>buffer = init_state 2, store = Map.empty,
               link = [\<lparr>chunk_timestamp = 1, battery_level = 80, entry_index = 0,
                        total_entries = 2, is_last = False\<rparr>,
                       \<lparr>chunk_timestamp = 2, battery_level = 75, entry_index = 1,
                        total_entries = 2, is_last = True\<rparr>]\<rparr>"
proof -
  let ?c = "\<lparr>chunk_timestamp = 1, battery_level = 80, entry_index = 0,
             total_entries = 2, is_last = False\<rparr>"
  let ?c2 = "\<lparr>chunk_timestamp = 2, battery_level = 75, entry_index = 1,
              total_entries = 2, is_last = True\<rparr>"
  let ?d = "\<lparr>buffer = init_state 2, store = Map.empty, link = []\<rparr>"
  let ?e = "\<lparr>timestamp = 1, battery_percentage = 80\<rparr>"
  have h1: "valid_state 2 (buffer ?d)" by (simp add: valid_init_state)
  have h2: "(0::nat) < 2" by simp
  have h3: "2 * sizeof_entry < 2 ^ 32" by (simp add: sizeof_entry_def)
  have ts: "get_current_timestamp 1000 = 1" by (simp add: get_current_timestamp_def)
  have kl: "keep_last 2 (stored_entries (buffer ?d) @ [?e]) = [?e]"
    by (simp add: stored_entries_init_state keep_last_def)
  have hb: "history_bytes [?e] = [1, 0, 0, 0, 80, 0, 0, 0]"
    by (simp add: history_bytes_def entry_bytes_def le32_bytes_def)
  have c0: "history_count (buffer ?d) = 0" by (simp add: init_state_def)
  note ok = relay_forwarding [OF h1 h2 h3, of 1000 80 backend_ok report_ok ?c "[?c, ?c2]"]
  note ko = relay_forwarding [OF h1 h2 h3, of 1000 80 backend_fails report_ok ?c "[?c, ?c2]"]
  from conjunct1 [OF ok] obtain s1 st1 where a1:
    "stored_entries s1 = keep_last 2 (stored_entries (buffer ?d)
        @ [\<lparr>timestamp = get_current_timestamp 1000, battery_percentage = 80\<rparr>])"
    "st1 = (if backend_ok SETTINGS_KEY_COUNT \<noteq> 0 then store ?d
            else if backend_ok SETTINGS_KEY_ENTRIES \<noteq> 0
            then (store ?d)(SETTINGS_KEY_COUNT \<mapsto> le32_bytes (word_of_int (history_count s1)))
            else (store ?d)(SETTINGS_KEY_COUNT \<mapsto> le32_bytes (word_of_int (history_count s1)),
                            SETTINGS_KEY_ENTRIES \<mapsto> history_bytes (stored_entries s1)))"
    "dispatch 2 backend_ok report_ok (Periodic_tick 80 1000) ?d
       = Some \<lparr>buffer = s1, store = st1, link = link ?d\<rparr>"
    by blast
  have e1: "stored_entries s1 = [?e]" using a1(1) unfolding ts kl .
  have k1: "st1 SETTINGS_KEY_ENTRIES = Some [1, 0, 0, 0, 80, 0, 0, 0]"
    unfolding a1(2) e1 hb by (simp add: backend_ok_def)
  have a: "\<exists>s1 st1. dispatch 2 backend_ok report_ok (Periodic_tick 80 1000) ?d
                 = Some \<lparr>buffer = s1, store = st1, link = []\<rparr>
         \<and> stored_entries s1 = [?e]
         \<and> st1 SETTINGS_KEY_ENTRIES = Some [1, 0, 0, 0, 80, 0, 0, 0]"
    using a1(3) e1 k1 by (intro exI [of _ s1] exI [of _ st1]) simp
  from conjunct1 [OF ko] obtain s2 st2 where a2:
    "stored_entries s2 = keep_last 2 (stored_entries (buffer ?d)
        @ [\<lparr>timestamp = get_current_timestamp 1000, battery_percentage = 80\<rparr>])"
    "st2 = (if backend_fails SETTINGS_KEY_COUNT \<noteq> 0 then store ?d
            else if backend_fails SETTINGS_KEY_ENTRIES \<noteq> 0
            then (store ?d)(SETTINGS_KEY_COUNT \<mapsto> le32_bytes (word_of_int (history_count s2)))
            else (store ?d)(SETTINGS_KEY_COUNT \<mapsto> le32_bytes (word_of_int (history_count s2)),
                            SETTINGS_KEY_ENTRIES \<mapsto> history_bytes (stored_entries s2)))"
    "dispatch 2 backend_fails report_ok (Level_changed 80 1000) ?d
       = Some (if history_count (buffer ?d) = 0
                  \<or> 5 \<le> \<bar>uint (80::u8)
                           - uint (battery_percentage (last (stored_entries (buffer ?d))))\<bar>
               then \<lparr>buffer = s2, store = st2, link = link ?d\<rparr> else ?d)"
    by blast
  have e2: "stored_entries s2 = [?e]" using a2(1) unfolding ts kl .
  have k2: "st2 = Map.empty" unfolding a2(2) by (simp add: backend_fails_def)
  have l2: "dispatch 2 backend_fails report_ok (Level_changed 80 1000) ?d
       = Some \<lparr>buffer = s2, store = Map.empty, link = []\<rparr>"
    using a2(3) unfolding c0 k2 by simp
  have b: "\<exists>s1. dispatch 2 backend_fails report_ok (Level_changed 80 1000) ?d
                 = Some \<lparr>buffer = s1, store = Map.empty, link = []\<rparr>
         \<and> stored_entries s1 = [?e]"
    using l2 e2 by blast
  have c: "dispatch 2 backend_ok report_ok (History_entry_event ?c) ?d
       = Some \<lparr>buffer = init_state 2, store = Map.empty, link = [?c]\<rparr>"
    using conjunct1 [OF conjunct2 [OF ok]] by (simp add: report_ok_def)
  have d: "dispatch_all 2 backend_ok report_ok (map History_entry_event [?c, ?c2]) ?d
       = Some \<lparr>buffer = init_state 2, store = Map.empty, link = [?c, ?c2]\<rparr>"
    using conjunct2 [OF conjunct2 [OF ok]] by (simp add: report_ok_def)
  show ?thesis by (intro conjI h1 h2 h3 a b c d)
qed

text \<open>
  C8 as stated fails: a periodic tick on the empty buffer of capacity 2 appends one
  entry and saves it, and the link stays empty, while the stream the claim asks for has
  one chunk.
\<close>

theorem tick_sends_no_chunk:
  "dispatch 2 backend_ok report_ok (Periodic_tick 80 1000)
     \<lparr>buffer = init_state 2, store = Map.empty, link = []\<rparr>
   = Some \<lparr>buffer = \<lparr>history = [\<lparr>timestamp = 1, battery_percentage = 80\<rparr>, zero_entry],
                      history_count = 1\<rparr>,
           store = [SETTINGS_KEY_COUNT \<mapsto> [1, 0, 0, 0],
                    SETTINGS_KEY_ENTRIES \<mapsto> [1, 0, 0, 0, 80, 0, 0, 0]],
           link = []\<rparr>
   \<and> spec_relay_stream
       (stored_entries \<lparr>history = [\<lparr>timestamp = 1, battery_percentage = 80\<rparr>, zero_entry],
                        history_count = 1\<rparr>)
     = [\<lparr>chunk_timestamp = 1, battery_level = 80, entry_index = 0, total_entries = 1,
         is_last = True\<rparr>]"
  by (simp add: dispatch_def save_battery_state_def add_history_entry_def init_state_def
      get_current_timestamp_def save_to_storage_def settings_save_one_def backend_ok_def
      sizeof_entry_def history_bytes_def entry_bytes_def le32_bytes_def zero_entry_def
      spec_relay_stream_def stored_entries_def Let_def replicate_two)

section \<open>The startup load and the capacity\<close>

text \<open>
  C1 at a store written with a larger capacity (count 3, three entries) and loaded with
  capacity 2: the count handler reports success and takes the count 3 as it is; the
  entries handler refuses the value with \<open>-EINVAL\<close> and changes nothing; after the load
  the buffer claims three entries in an array of two.
\<close>

theorem load_count_beyond_capacity:
  "settings_load_handler 2 ''count'' [3, 0, 0, 0] (init_state 2)
     = (4, \<lparr>history = [zero_entry, zero_entry], history_count = 3\<rparr>)
   \<and> settings_load_handler 2 ''entries''
        (history_bytes [\<lparr>timestamp = 1, battery_percentage = 80\<rparr>,
                        \<lparr>timestamp = 2, battery_percentage = 75\<rparr>,
                        \<lparr>timestamp = 3, battery_percentage = 70\<rparr>])
        \<lparr>history = [zero_entry, zero_entry], history_count = 3\<rparr>
     = (- EINVAL, \<lparr>history = [zero_entry, zero_entry], history_count = 3\<rparr>)
   \<and> battery_history_init 2 [''count'', ''entries'']
        [SETTINGS_KEY_COUNT \<mapsto> [3, 0, 0, 0],
         SETTINGS_KEY_ENTRIES \<mapsto> history_bytes [\<lparr>timestamp = 1, battery_percentage = 80\<rparr>,
                        \<lparr>timestamp = 2, battery_percentage = 75\<rparr>,
                        \<lparr>timestamp = 3, battery_percentage = 70\<rparr>]]
     = \<lparr>history = [zero_entry, zero_entry], history_count = 3\<rparr>"
proof -
  let ?es = "[\<lparr>timestamp = 1, battery_percentage = 80\<rparr>,
              \<lparr>timestamp = 2, battery_percentage = 75\<rparr>,
              \<lparr>timestamp = 3, battery_percentage = 70\<rparr>]"
  let ?s3 = "\<lparr>history = [zero_entry, zero_entry], history_count = 3\<rparr>"
  let ?st = "[SETTINGS_KEY_COUNT \<mapsto> [3, 0, 0, 0], SETTINGS_KEY_ENTRIES \<mapsto> history_bytes ?es]"
  have c1: "settings_load_handler 2 ''count'' [3, 0, 0, 0] (init_state 2) = (4, ?s3)"
    by (simp add: settings_load_handler_def init_state_def sizeof_int_def replicate_two)
  have c2: "settings_load_handler 2 ''entries'' (history_bytes ?es) ?s3 = (- EINVAL, ?s3)"
    by (simp add: settings_load_handler_def length_history_bytes sizeof_entry_def)
  have k1: "SETTINGS_KEY @ ''/'' @ ''count'' = SETTINGS_KEY_COUNT"
    and k2: "SETTINGS_KEY @ ''/'' @ ''entries'' = SETTINGS_KEY_ENTRIES"
    by (simp_all add: SETTINGS_KEY_COUNT_def SETTINGS_KEY_ENTRIES_def)
  have l1: "?st SETTINGS_KEY_COUNT = Some [3, 0, 0, 0]"
    and l2: "?st SETTINGS_KEY_ENTRIES = Some (history_bytes ?es)"
    using key_simps(1) by simp_all
  have c3: "battery_history_init 2 [''count'', ''entries''] ?st = ?s3"
    unfolding battery_history_init_def settings_load_subtree.simps k1 k2 l1 l2
    by (simp only: option.case c1 c2 snd_conv)
  show ?thesis by (intro conjI c1 c2 c3)
qed

text \<open>
  C5 at the same kind of store: after the startup load the counter is 3 with capacity
  2, outside \<open>0 \<le> len \<le> N\<close>. Appending and clearing do keep the invariant
  (\<open>add_history_entry_valid\<close>, \<open>clear_valid\<close>).
\<close>

theorem load_breaks_invariant:
  "history_count (battery_history_init 2 [''count''] [SETTINGS_KEY_COUNT \<mapsto> [3, 0, 0, 0]]) = 3
   \<and> \<not> valid_state 2 (battery_history_init 2 [''count''] [SETTINGS_KEY_COUNT \<mapsto> [3, 0, 0, 0]])"
  by (simp add: settings_load_handler_def battery_history_init_def init_state_def sizeof_int_def
      valid_state_def SETTINGS_KEY_def SETTINGS_KEY_COUNT_def)


lemma clear_valid:
  assumes "length (history s) = N" "battery_history_clear N be s st = Some (rc, s', st')"
  shows "valid_state N s'"
  using assms
  by (auto simp: battery_history_clear_def Let_def valid_state_def split: option.splits)

end
